theory Spec2Isabelle
  imports Main "HOL-Library.Sublist"
begin

section \<open>Strings\<close>

text \<open>
  Python strings are modelled as \<open>string\<close>. The helpers below are the string methods
  that \<^verbatim>\<open>embed.py\<close> and \<^verbatim>\<open>posixpath\<close> use.
\<close>

definition startswith :: "string \<Rightarrow> string \<Rightarrow> bool" where
  "startswith s p = (take (length p) s = p)"

definition endswith :: "string \<Rightarrow> string \<Rightarrow> bool" where
  "endswith s p = (length p \<le> length s \<and> drop (length s - length p) s = p)"

text \<open>\<^verbatim>\<open>s.split(c)\<close>: never empty, \<^verbatim>\<open>"".split("/") == [""]\<close>.\<close>

fun split_sep :: "char \<Rightarrow> string \<Rightarrow> string list" where
  "split_sep c [] = [[]]"
| "split_sep c (x # xs) =
     (if x = c then [] # split_sep c xs
      else (case split_sep c xs of
              [] \<Rightarrow> [[x]]
            | y # ys \<Rightarrow> (x # y) # ys))"

text \<open>\<^verbatim>\<open>c.join(xs)\<close>\<close>

fun join_sep :: "string \<Rightarrow> string list \<Rightarrow> string" where
  "join_sep c [] = []"
| "join_sep c [x] = x"
| "join_sep c (x # y # ys) = x @ c @ join_sep c (y # ys)"

definition rstrip :: "char \<Rightarrow> string \<Rightarrow> string" where
  "rstrip c s = rev (dropWhile (\<lambda>x. x = c) (rev s))"

section \<open>Errors\<close>

text \<open>
  Every exception the module can raise is a value. The string is the message.
  \<open>UnboundLocalError\<close> carries the name of the local variable that was read
  before any assignment. \<open>Unmodelled_format\<close> is no exception of Python: it marks a
  run whose template uses a feature of \<^verbatim>\<open>str.format\<close> that the model of formatting
  below leaves out, and no theorem concludes it.
\<close>

datatype error =
    ValueError string
  | IOError string
  | OSError string
  | BadZipFile string
  | URLError string
  | KeyError string
  | IndexError string
  | UnboundLocalError string
  | Unmodelled_format

text \<open>\<^verbatim>\<open>str(err)\<close>, as used in the message of the re-raised extraction failure.\<close>

fun error_str :: "error \<Rightarrow> string" where
  "error_str (ValueError m) = m"
| "error_str (IOError m) = m"
| "error_str (OSError m) = m"
| "error_str (BadZipFile m) = m"
| "error_str (URLError m) = m"
| "error_str (KeyError k) = [CHR 0x27] @ k @ [CHR 0x27]"
| "error_str (IndexError m) = m"
| "error_str (UnboundLocalError v) =
     ''local variable '' @ [CHR 0x27] @ v @ [CHR 0x27] @ '' referenced before assignment''"
| "error_str Unmodelled_format = []"

section \<open>\<^verbatim>\<open>os.path\<close> on POSIX\<close>

text \<open>
  The functions of \<^verbatim>\<open>posixpath\<close> that \<^verbatim>\<open>embed.py\<close> calls, on strings, following the
  library's code. The current working directory is a parameter.
\<close>

definition isabs :: "string \<Rightarrow> bool" where
  "isabs s = startswith s ''/''"

text \<open>One step of \<^verbatim>\<open>os.path.join\<close>'s loop, and the loop.\<close>

definition join2 :: "string \<Rightarrow> string \<Rightarrow> string" where
  "join2 path b =
     (if startswith b ''/'' then b
      else if path = [] \<or> endswith path ''/'' then path @ b
      else path @ ''/'' @ b)"

definition path_join :: "string \<Rightarrow> string list \<Rightarrow> string" where
  "path_join a p = foldl join2 a p"

text \<open>\<^verbatim>\<open>p[:p.rfind('/') + 1]\<close> and \<^verbatim>\<open>p[p.rfind('/') + 1:]\<close>\<close>

definition head_part :: "string \<Rightarrow> string" where
  "head_part p = rev (dropWhile (\<lambda>c. c \<noteq> CHR ''/'') (rev p))"

definition basename :: "string \<Rightarrow> string" where
  "basename p = rev (takeWhile (\<lambda>c. c \<noteq> CHR ''/'') (rev p))"

definition dirname :: "string \<Rightarrow> string" where
  "dirname p =
     (let head = head_part p
      in if head \<noteq> [] \<and> \<not> list_all (\<lambda>c. c = CHR ''/'') head
         then rstrip (CHR ''/'') head else head)"

text \<open>The body of \<^verbatim>\<open>normpath\<close>'s loop over the components.\<close>

definition norm_step :: "bool \<Rightarrow> string list \<Rightarrow> string \<Rightarrow> string list" where
  "norm_step initial_slashes new_comps cmp =
     (if cmp = [] \<or> cmp = ''.'' then new_comps
      else if cmp \<noteq> ''..'' \<or> (\<not> initial_slashes \<and> new_comps = [])
              \<or> (new_comps \<noteq> [] \<and> last new_comps = ''..'')
           then new_comps @ [cmp]
      else if new_comps \<noteq> [] then butlast new_comps
      else new_comps)"

definition normpath :: "string \<Rightarrow> string" where
  "normpath path =
     (if path = [] then ''.''
      else
        let initial_slashes =
              (if startswith path ''/'' then
                 (if startswith path ''//'' \<and> \<not> startswith path ''///'' then 2 else 1)
               else (0::nat));
            comps = foldl (norm_step (initial_slashes \<noteq> 0)) [] (split_sep (CHR ''/'') path);
            p = replicate initial_slashes (CHR ''/'') @ join_sep ''/'' comps
        in if p = [] then ''.'' else p)"

definition abspath :: "string \<Rightarrow> string \<Rightarrow> string" where
  "abspath cwd path = normpath (if isabs path then path else join2 cwd path)"

text \<open>\<^verbatim>\<open>[x for x in s.split(sep) if x]\<close>\<close>

definition path_list :: "string \<Rightarrow> string list" where
  "path_list s = filter (\<lambda>x. x \<noteq> []) (split_sep (CHR ''/'') s)"

text \<open>\<^verbatim>\<open>os.path.commonprefix\<close> of two component lists.\<close>

fun commonprefix :: "'a list \<Rightarrow> 'a list \<Rightarrow> 'a list" where
  "commonprefix (x # xs) (y # ys) = (if x = y then x # commonprefix xs ys else [])"
| "commonprefix _ _ = []"

definition relpath :: "string \<Rightarrow> string \<Rightarrow> string \<Rightarrow> error + string" where
  "relpath cwd path start =
     (if path = [] then Inl (ValueError ''no path specified'')
      else
        let start_list = path_list (abspath cwd start);
            plist = path_list (abspath cwd path);
            i = length (commonprefix start_list plist);
            rel_list = replicate (length start_list - i) ''..'' @ drop i plist
        in case rel_list of
             [] \<Rightarrow> Inr ''.''
           | r # rs \<Rightarrow> Inr (path_join r rs))"

section \<open>The world: file system, network, trace\<close>

text \<open>
  The file system maps a normalised absolute path to a regular file with its content or
  to a directory. Paths are resolved lexically with \<open>abspath\<close>: there are no symbolic
  links and no permissions. The trace records, in order, every call that touches the
  disk or the network, with the arguments the program passed.
\<close>

datatype node = File string | Dir

type_synonym filesys = "(string \<times> node) list"

datatype effect =
    NetGet string
  | MkDirs string
  | WriteFile string string
  | CopyFile string string
  | ExtractAll string
  | Rename string string

record world =
  fs :: filesys
  trace :: "effect list"

text \<open>
  What the program reads from its surroundings and never changes: the working
  directory, the installed package (\<^verbatim>\<open>ipyvolume.__path__[0]\<close>,
  \<^verbatim>\<open>ipyvolume._version.__version_js__\<close>), the widget framework
  (\<^verbatim>\<open>ipywidgets.embed\<close>: \<^verbatim>\<open>__html_manager_version__\<close>, \<^verbatim>\<open>dependency_state\<close>,
  \<^verbatim>\<open>embed_snippet\<close>, the page \<^verbatim>\<open>embed_minimal_html\<close> writes), the answers of the
  network (\<open>None\<close>: the request fails) and the reading of a zip archive (\<open>None\<close>: the
  bytes are not a zip file; otherwise the members in order, name and content, a name
  ending in a slash being a directory). Widgets and widget state are opaque: \<open>'w\<close>
  and \<open>'s\<close>.
\<close>

record ('w, 's) env =
  cwd :: string
  pkg_path :: string
  version_js :: string
  html_manager_version :: string
  net :: "string \<Rightarrow> string option"
  zip_members :: "string \<Rightarrow> (string \<times> string) list option"
  dependency_state :: "'w \<Rightarrow> bool \<Rightarrow> 's"
  embed_snippet :: "'w \<Rightarrow> string \<Rightarrow> bool \<Rightarrow> 's option \<Rightarrow> string"
  minimal_html :: "'w \<Rightarrow> 's option \<Rightarrow> bool \<Rightarrow> string"

text \<open>A computation takes the world and returns an error or a value, and the world after.\<close>

type_synonym 'a io = "world \<Rightarrow> (error + 'a) \<times> world"

definition return_io :: "'a \<Rightarrow> 'a io" where
  "return_io x = (\<lambda>w. (Inr x, w))"

definition raise_io :: "error \<Rightarrow> 'a io" where
  "raise_io err = (\<lambda>w. (Inl err, w))"

definition bind_io :: "'a io \<Rightarrow> ('a \<Rightarrow> 'b io) \<Rightarrow> 'b io" where
  "bind_io m f = (\<lambda>w. case m w of
                         (Inl err, w') \<Rightarrow> (Inl err, w')
                       | (Inr x, w') \<Rightarrow> f x w')"

definition log_io :: "effect \<Rightarrow> unit io" where
  "log_io ev = (\<lambda>w. (Inr (), w\<lparr>trace := trace w @ [ev]\<rparr>))"

text \<open>Lifts an operation on the file system: on failure the file system is unchanged.\<close>

definition fs_io :: "(filesys \<Rightarrow> error + filesys) \<Rightarrow> unit io" where
  "fs_io op = (\<lambda>w. case op (fs w) of
                      Inl err \<Rightarrow> (Inl err, w)
                    | Inr l \<Rightarrow> (Inr (), w\<lparr>fs := l\<rparr>))"

subsection \<open>File system operations\<close>

definition fs_put :: "string \<Rightarrow> node \<Rightarrow> filesys \<Rightarrow> filesys" where
  "fs_put a n l = (a, n) # filter (\<lambda>kv. fst kv \<noteq> a) l"

text \<open>\<^verbatim>\<open>os.path.exists\<close> and \<^verbatim>\<open>os.path.isdir\<close>; the empty path names nothing.\<close>

definition path_exists :: "string \<Rightarrow> filesys \<Rightarrow> string \<Rightarrow> bool" where
  "path_exists d l p = (p \<noteq> [] \<and> map_of l (abspath d p) \<noteq> None)"

definition path_isdir :: "string \<Rightarrow> filesys \<Rightarrow> string \<Rightarrow> bool" where
  "path_isdir d l p = (p \<noteq> [] \<and> map_of l (abspath d p) = Some Dir)"

text \<open>The root and every directory above a normalised absolute path, top down.\<close>

definition ancestors :: "string \<Rightarrow> string list" where
  "ancestors a =
     (let root = takeWhile (\<lambda>c. c = CHR ''/'') a; cs = path_list a
      in map (\<lambda>n. root @ join_sep ''/'' (take n cs)) [0..<length cs])"

fun mk_chain :: "filesys \<Rightarrow> string list \<Rightarrow> error + filesys" where
  "mk_chain l [] = Inr l"
| "mk_chain l (a # as) =
     (case map_of l a of
        None \<Rightarrow> mk_chain (fs_put a Dir l) as
      | Some Dir \<Rightarrow> mk_chain l as
      | Some (File c) \<Rightarrow> Inl (OSError (''Not a directory: '' @ a)))"

text \<open>
  \<^verbatim>\<open>os.makedirs(name)\<close> with \<^verbatim>\<open>exist_ok=False\<close>: every missing directory above \<open>name\<close>
  is created, then \<open>name\<close> itself, which must not exist.
\<close>

definition fs_makedirs :: "string \<Rightarrow> string \<Rightarrow> filesys \<Rightarrow> error + filesys" where
  "fs_makedirs d name l =
     (if name = [] then Inl (OSError ''No such file or directory: '')
      else let a = abspath d name
           in if map_of l a \<noteq> None then Inl (OSError (''File exists: '' @ name))
              else mk_chain l (ancestors a @ [a]))"

text \<open>\<^verbatim>\<open>os.mkdir\<close>\<close>

definition fs_mkdir :: "string \<Rightarrow> string \<Rightarrow> filesys \<Rightarrow> error + filesys" where
  "fs_mkdir d name l =
     (if name = [] then Inl (OSError ''No such file or directory: '')
      else let a = abspath d name
           in if map_of l a \<noteq> None then Inl (OSError (''File exists: '' @ name))
              else if map_of l (dirname a) \<noteq> Some Dir
                   then Inl (OSError (''No such file or directory: '' @ name))
              else Inr (fs_put a Dir l))"

text \<open>Opening \<open>p\<close> for writing and writing \<open>c\<close>: the directory of \<open>p\<close> must exist.\<close>

definition fs_write :: "string \<Rightarrow> string \<Rightarrow> string \<Rightarrow> filesys \<Rightarrow> error + filesys" where
  "fs_write d p c l =
     (if p = [] then Inl (OSError ''No such file or directory: '')
      else let a = abspath d p
           in if map_of l (dirname a) \<noteq> Some Dir
                then Inl (OSError (''No such file or directory: '' @ p))
              else if map_of l a = Some Dir then Inl (OSError (''Is a directory: '' @ p))
              else Inr (fs_put a (File c) l))"

definition fs_read :: "string \<Rightarrow> string \<Rightarrow> filesys \<Rightarrow> error + string" where
  "fs_read d p l =
     (if p = [] then Inl (OSError ''No such file or directory: '')
      else case map_of l (abspath d p) of
             Some (File c) \<Rightarrow> Inr c
           | Some Dir \<Rightarrow> Inl (OSError (''Is a directory: '' @ p))
           | None \<Rightarrow> Inl (OSError (''No such file or directory: '' @ p)))"

text \<open>
  \<^verbatim>\<open>shutil.copy(src, dst)\<close>: into \<open>dst\<close> under the name of \<open>src\<close> when \<open>dst\<close> is a
  directory, onto \<open>dst\<close> otherwise.
\<close>

definition fs_copy :: "string \<Rightarrow> string \<Rightarrow> string \<Rightarrow> filesys \<Rightarrow> error + filesys" where
  "fs_copy d src dst l =
     (let dst' = (if path_isdir d l dst then join2 dst (basename src) else dst)
      in case fs_read d src l of
           Inl err \<Rightarrow> Inl err
         | Inr c \<Rightarrow>
             if dst' \<noteq> [] \<and> abspath d src = abspath d dst'
             then Inl (OSError (src @ '' and '' @ dst' @ '' are the same file''))
             else fs_write d dst' c l)"

text \<open>A path strictly below the directory \<open>a\<close>.\<close>

definition below :: "string \<Rightarrow> string \<Rightarrow> bool" where
  "below a q = (length a < length q \<and> startswith q (if endswith a ''/'' then a else a @ ''/''))"

text \<open>
  \<^verbatim>\<open>os.rename(src, dst)\<close>: \<open>src\<close> must exist and the directory of \<open>dst\<close> too; a file
  replaces a file, a directory replaces an empty directory, a directory does not move
  below itself; everything below \<open>src\<close> moves with it.
\<close>

definition fs_rename :: "string \<Rightarrow> string \<Rightarrow> string \<Rightarrow> filesys \<Rightarrow> error + filesys" where
  "fs_rename d src dst l =
     (if src = [] \<or> dst = [] then Inl (OSError ''No such file or directory: '')
      else
        let a = abspath d src; b = abspath d dst
        in case map_of l a of
             None \<Rightarrow> Inl (OSError (''No such file or directory: '' @ src))
           | Some n \<Rightarrow>
               if a = b then Inr l
               else if map_of l (dirname b) \<noteq> Some Dir
                    then Inl (OSError (''No such file or directory: '' @ dst))
               else if below a b then Inl (OSError (''Invalid argument: '' @ dst))
               else if (case (n, map_of l b) of
                          (_, None) \<Rightarrow> False
                        | (File _, Some (File _)) \<Rightarrow> False
                        | (Dir, Some Dir) \<Rightarrow> list_ex (\<lambda>kv. below b (fst kv)) l
                        | _ \<Rightarrow> True)
                    then Inl (OSError (''Cannot replace: '' @ dst))
               else Inr (map (\<lambda>kv. if fst kv = a then (b, snd kv)
                                    else if below a (fst kv)
                                         then (b @ drop (length a) (fst kv), snd kv)
                                    else kv)
                           (filter (\<lambda>kv. fst kv \<noteq> b) l)))"

subsection \<open>Calls that touch the disk or the network\<close>

definition os_path_exists :: "('w, 's) env \<Rightarrow> string \<Rightarrow> bool io" where
  "os_path_exists e p = (\<lambda>w. (Inr (path_exists (cwd e) (fs w) p), w))"

definition os_makedirs :: "('w, 's) env \<Rightarrow> string \<Rightarrow> unit io" where
  "os_makedirs e name =
     bind_io (log_io (MkDirs name)) (\<lambda>_. fs_io (fs_makedirs (cwd e) name))"

definition shutil_copy :: "('w, 's) env \<Rightarrow> string \<Rightarrow> string \<Rightarrow> unit io" where
  "shutil_copy e src dst =
     bind_io (log_io (CopyFile src dst)) (\<lambda>_. fs_io (fs_copy (cwd e) src dst))"

definition os_rename :: "('w, 's) env \<Rightarrow> string \<Rightarrow> string \<Rightarrow> unit io" where
  "os_rename e src dst =
     bind_io (log_io (Rename src dst)) (\<lambda>_. fs_io (fs_rename (cwd e) src dst))"

text \<open>\<^verbatim>\<open>with io.open(p, "w", encoding='utf8') as f: f.write(c)\<close>\<close>

definition write_text :: "('w, 's) env \<Rightarrow> string \<Rightarrow> string \<Rightarrow> unit io" where
  "write_text e p c =
     bind_io (log_io (WriteFile p c)) (\<lambda>_. fs_io (fs_write (cwd e) p c))"

text \<open>
  Modelled from the spec: \<^verbatim>\<open>ipyvolume.utils.download_to_bytes\<close> and
  \<^verbatim>\<open>ipyvolume.utils.download_to_file\<close> are not among the sources. The spec (4.1):
  \<^verbatim>\<open>fetch(url) -> bytes\<close>, and \<^verbatim>\<open>fetch_to_file(url, path)\<close> "which writes the result,
  creating parent directories as needed. Failure: network or non-2xx response surfaces as
  a retrievable-resource error; caller does not retry." The encoding that
  \<^verbatim>\<open>download_to_bytes\<close> returns beside the content is never used by the caller.
\<close>

definition download_to_bytes :: "('w, 's) env \<Rightarrow> string \<Rightarrow> string io" where
  "download_to_bytes e url =
     bind_io (log_io (NetGet url)) (\<lambda>_.
       case net e url of
         None \<Rightarrow> raise_io (URLError url)
       | Some content \<Rightarrow> return_io content)"

definition download_to_file :: "('w, 's) env \<Rightarrow> string \<Rightarrow> string \<Rightarrow> unit io" where
  "download_to_file e url path =
     bind_io (download_to_bytes e url) (\<lambda>content.
     bind_io (os_path_exists e (dirname path)) (\<lambda>there.
     bind_io (if dirname path \<noteq> [] \<and> \<not> there then os_makedirs e (dirname path)
              else return_io ()) (\<lambda>_.
       write_text e path content)))"

subsection \<open>Zip archives\<close>

text \<open>
  \<^verbatim>\<open>ZipFile._extract_member\<close>: the member's name loses its empty, \<^verbatim>\<open>.\<close> and \<^verbatim>\<open>..\<close>
  components, the directories above the target are created, then the directory or the
  file itself.
\<close>

definition extract_member :: "string \<Rightarrow> string \<Rightarrow> string \<times> string \<Rightarrow> filesys \<Rightarrow> error + filesys" where
  "extract_member d path m l =
     (let arcname = join_sep ''/'' (filter (\<lambda>x. x \<noteq> [] \<and> x \<noteq> ''.'' \<and> x \<noteq> ''..'')
                                      (split_sep (CHR ''/'') (fst m)));
          targetpath = normpath (join2 path arcname);
          upperdirs = dirname targetpath
      in case (if upperdirs \<noteq> [] \<and> \<not> path_exists d l upperdirs
               then fs_makedirs d upperdirs l else Inr l) of
           Inl err \<Rightarrow> Inl err
         | Inr l1 \<Rightarrow>
             if endswith (fst m) ''/''
             then (if \<not> path_isdir d l1 targetpath then fs_mkdir d targetpath l1 else Inr l1)
             else fs_write d targetpath (snd m) l1)"

text \<open>
  \<^verbatim>\<open>ZipFile.extractall(path)\<close>: the members in order; a failure stops the loop and
  leaves what was extracted before it.
\<close>

fun fs_extractall :: "string \<Rightarrow> string \<Rightarrow> (string \<times> string) list \<Rightarrow> filesys \<Rightarrow> error option \<times> filesys" where
  "fs_extractall d path [] l = (None, l)"
| "fs_extractall d path (m # ms) l =
     (case extract_member d path m l of
        Inl err \<Rightarrow> (Some err, l)
      | Inr l1 \<Rightarrow> fs_extractall d path ms l1)"

definition extractall :: "('w, 's) env \<Rightarrow> string \<Rightarrow> (string \<times> string) list \<Rightarrow> unit io" where
  "extractall e path ms =
     bind_io (log_io (ExtractAll path)) (\<lambda>_ w.
       case fs_extractall (cwd e) path ms (fs w) of
         (Some err, l) \<Rightarrow> (Inl err, w\<lparr>fs := l\<rparr>)
       | (None, l) \<Rightarrow> (Inr (), w\<lparr>fs := l\<rparr>))"

text \<open>\<^verbatim>\<open>try: ... except Exception as err: ...\<close>\<close>

definition except_io :: "'a io \<Rightarrow> (error \<Rightarrow> 'a io) \<Rightarrow> 'a io" where
  "except_io m h = (\<lambda>w. case m w of
                          (Inl err, w') \<Rightarrow> h err w'
                        | (Inr x, w') \<Rightarrow> (Inr x, w'))"

section \<open>\<^verbatim>\<open>str.format\<close> with keyword arguments\<close>

text \<open>
  \<^verbatim>\<open>template.format(**mapping)\<close> of CPython 3 reads the template from left to right:
  literal text with \<^verbatim>\<open>{{\<close> and \<^verbatim>\<open>}}\<close> for braces, and replacement fields. The scan
  yields the pieces in order and ends at the first syntax error. A replacement field
  that holds a conversion, a format specification, an attribute or an index
  (\<^verbatim>\<open>!\<close>, \<^verbatim>\<open>:\<close>, \<^verbatim>\<open>.\<close>, \<^verbatim>\<open>[\<close>) is outside this model: the scan ends there
  with \<open>Unmodelled\<close>.
\<close>

datatype token = Lit string | Fld string | Bad error | Unmodelled

fun scan_text :: "string \<Rightarrow> string \<Rightarrow> token list"
  and scan_name :: "string \<Rightarrow> string \<Rightarrow> token list" where
  "scan_text acc [] = [Lit (rev acc)]"
| "scan_text acc (c # s) =
     (if c = CHR ''}'' then
        (case s of
           [] \<Rightarrow> [Bad (ValueError ''Single '}' encountered in format string'')]
         | c' # s' \<Rightarrow>
             if c' = CHR ''}'' then scan_text (c # acc) s'
             else [Bad (ValueError ''Single '}' encountered in format string'')])
      else if c = CHR ''{'' then
        (case s of
           [] \<Rightarrow> [Bad (ValueError ''Single '{' encountered in format string'')]
         | c' # s' \<Rightarrow>
             if c' = CHR ''{'' then scan_text (c # acc) s'
             else Lit (rev acc) # scan_name [] s)
      else scan_text (c # acc) s)"
| "scan_name acc [] = [Bad (ValueError ''expected '}' before end of string'')]"
| "scan_name acc (c # s) =
     (if c = CHR ''}'' then Fld (rev acc) # scan_text [] s
      else if c = CHR ''{'' then [Bad (ValueError ''unexpected '{' in field name'')]
      else if c = CHR ''!'' \<or> c = CHR '':'' \<or> c = CHR ''.'' \<or> c = CHR ''[''
           then [Unmodelled]
      else scan_name (c # acc) s)"

definition scan :: "string \<Rightarrow> token list" where
  "scan t = scan_text [] t"

text \<open>
  A field name that is empty or all decimal digits is a position in the positional
  arguments, of which \<^verbatim>\<open>format(**mapping)\<close> has none. Any other name is a key.
\<close>

definition is_digit :: "char \<Rightarrow> bool" where
  "is_digit c = (48 \<le> (of_char c :: nat) \<and> (of_char c :: nat) \<le> 57)"

definition positional :: "string \<Rightarrow> bool" where
  "positional k = list_all is_digit k"

definition digits_value :: "string \<Rightarrow> int" where
  "digits_value k = foldl (\<lambda>n c. 10 * n + (of_char c - 48)) 0 k"

text \<open>A template that reaches an \<open>Unmodelled\<close> field has no result: \<open>None\<close>.\<close>

fun render :: "token list \<Rightarrow> (string \<Rightarrow> string option) \<Rightarrow> string \<Rightarrow> (error + string) option" where
  "render [] m out = Some (Inr out)"
| "render (Lit s # ts) m out = render ts m (out @ s)"
| "render (Fld k # ts) m out =
     (if positional k then
        (if digits_value k > 2 ^ 63 - 1
         then Some (Inl (ValueError ''Too many decimal digits in format string''))
         else Some (Inl (IndexError ''Replacement index out of range for positional args tuple'')))
      else case m k of
             None \<Rightarrow> Some (Inl (KeyError k))
           | Some v \<Rightarrow> render ts m (out @ v))"
| "render (Bad err # ts) m out = Some (Inl err)"
| "render (Unmodelled # ts) m out = None"

definition py_format :: "string \<Rightarrow> (string \<Rightarrow> string option) \<Rightarrow> (error + string) option" where
  "py_format t m = render (scan t) m []"

text \<open>
  The replacement fields that formatting reaches: those before the first syntax error.
  A template is plain when its scan has neither a syntax error nor an unmodelled field
  and every field is a key.
\<close>

fun fields_of :: "token list \<Rightarrow> string list" where
  "fields_of [] = []"
| "fields_of (Lit s # ts) = fields_of ts"
| "fields_of (Fld k # ts) = k # fields_of ts"
| "fields_of (Bad err # ts) = []"
| "fields_of (Unmodelled # ts) = []"

definition field_names :: "string \<Rightarrow> string list" where
  "field_names t = fields_of (scan t)"

fun plain_tokens :: "token list \<Rightarrow> bool" where
  "plain_tokens [] = True"
| "plain_tokens (Lit s # ts) = plain_tokens ts"
| "plain_tokens (Fld k # ts) = (\<not> positional k \<and> plain_tokens ts)"
| "plain_tokens (Bad err # ts) = False"
| "plain_tokens (Unmodelled # ts) = False"

definition plain_template :: "string \<Rightarrow> bool" where
  "plain_template t = plain_tokens (scan t)"

text \<open>\<^verbatim>\<open>dict(pairs)\<close>: a later pair replaces an earlier one with the same key.\<close>

definition py_dict :: "(string \<times> string) list \<Rightarrow> (string \<Rightarrow> string option)" where
  "py_dict pairs = map_of (rev pairs)"

text \<open>Formatting inside a computation.\<close>

definition format_io :: "string \<Rightarrow> (string \<Rightarrow> string option) \<Rightarrow> string io" where
  "format_io t m =
     (case py_format t m of
        None \<Rightarrow> raise_io Unmodelled_format
      | Some (Inl err) \<Rightarrow> raise_io err
      | Some (Inr out) \<Rightarrow> return_io out)"

section \<open>\<^verbatim>\<open>ipyvolume/embed.py\<close>\<close>

definition html_template :: string where
  "html_template =
     ''<!DOCTYPE html>\<newline><html lang=\"en\">\<newline><head>\<newline>'' @
     ''    <meta charset=\"UTF-8\">\<newline>'' @
     ''    <title>{title}</title>\<newline>'' @
     ''    {extra_script_head}\<newline>'' @
     ''</head>\<newline><body>\<newline>{body_pre}\<newline>{snippet}\<newline>{body_post}\<newline>'' @
     ''</body>\<newline></html>\<newline>''"

text \<open>The path of \<^verbatim>\<open>three.js\<close> in the installed package.\<close>

definition threejs_path :: "('w, 's) env \<Rightarrow> string" where
  "threejs_path e = path_join (abspath (cwd e) (pkg_path e)) [''static'', ''three.js'']"

definition save_ipyvolumejs :: "('w, 's) env \<Rightarrow> string \<Rightarrow> string \<Rightarrow> bool \<Rightarrow> string io" where
  "save_ipyvolumejs e folderpath version devmode =
     (let url = ''https://unpkg.com/ipyvolume@'' @ version @ ''/dist/index.js'';
          filename = ''ipyvolume.js'';
          filepath = path_join folderpath [filename];
          devfile = path_join (abspath (cwd e) (pkg_path e)) [''..'', ''js'', ''dist'', ''index.js'']
      in bind_io (os_path_exists e devfile) (\<lambda>dev_there.
         bind_io (if devmode \<and> dev_there then
                    bind_io (os_path_exists e folderpath) (\<lambda>there.
                    bind_io (if folderpath \<noteq> [] \<and> \<not> there then os_makedirs e folderpath
                             else return_io ()) (\<lambda>_.
                      shutil_copy e devfile filepath))
                  else download_to_file e url filepath) (\<lambda>_.
         let directory = dirname filepath;
             threejs = threejs_path e
         in bind_io (shutil_copy e threejs directory) (\<lambda>_.
            return_io ''ipyvolume.js''))))"

definition save_requirejs :: "('w, 's) env \<Rightarrow> string \<Rightarrow> string \<Rightarrow> string io" where
  "save_requirejs e folderpath version =
     (let url = ''https://cdnjs.cloudflare.com/ajax/libs/require.js/'' @ version @ ''/require.min.js'';
          filename = ''require.min.v'' @ version @ ''.js'';
          filepath = path_join folderpath [filename]
      in bind_io (download_to_file e url filepath) (\<lambda>_. return_io filename))"

definition save_embed_js :: "('w, 's) env \<Rightarrow> string \<Rightarrow> string \<Rightarrow> string io" where
  "save_embed_js e folderpath version =
     (let url = ''https://unpkg.com/@jupyter-widgets/html-manager@'' @ version @ ''/dist/embed-amd.js'';
          filename = ''embed-amd_v'' @ drop 1 version @ ''.js'';
          filepath = path_join folderpath [filename]
      in bind_io (download_to_file e url filepath) (\<lambda>_. return_io filename))"

text \<open>
  The body of the \<^verbatim>\<open>try\<close> of \<^verbatim>\<open>save_font_awesome\<close>: the archive is opened, the name
  of its first member is read (\<^verbatim>\<open>namelist()[0]\<close> raises on an archive with no member),
  and every member is extracted.
\<close>

definition unzip_to :: "('w, 's) env \<Rightarrow> string \<Rightarrow> string \<Rightarrow> string io" where
  "unzip_to e content dirpath =
     (case zip_members e content of
        None \<Rightarrow> raise_io (BadZipFile ''File is not a zip file'')
      | Some ms \<Rightarrow>
          (case ms of
             [] \<Rightarrow> raise_io (IndexError ''list index out of range'')
           | m # _ \<Rightarrow>
               bind_io (extractall e dirpath ms) (\<lambda>_. return_io (fst m))))"

definition save_font_awesome :: "('w, 's) env \<Rightarrow> string \<Rightarrow> string \<Rightarrow> string io" where
  "save_font_awesome e dirpath version =
     (let folder_name = ''font-awesome-'' @ version;
          folder_path = path_join dirpath [folder_name]
      in bind_io (os_path_exists e folder_path) (\<lambda>there.
         if there then return_io folder_name
         else
           let url = ''http://fontawesome.io/assets/font-awesome-'' @ version @ ''.zip''
           in bind_io (download_to_bytes e url) (\<lambda>content.
              bind_io (except_io (unzip_to e content dirpath)
                         (\<lambda>err. raise_io (IOError (''Could not unzip content from: '' @ url @
                                                   ''\<newline>'' @ error_str err)))) (\<lambda>top_level_name.
              bind_io (os_rename e (path_join dirpath [top_level_name]) folder_path) (\<lambda>_.
                return_io folder_name)))))"

text \<open>The arguments of \<^verbatim>\<open>embed_html\<close>.\<close>

record 'w embed_args =
  filepath :: string
  widgets :: 'w
  makedirs :: bool
  title :: string
  all_states :: bool
  offline :: bool
  offline_req :: bool
  scripts_path :: string
  drop_defaults :: bool
  template :: string
  template_options :: "(string \<times> string) list"
  devmode :: bool

text \<open>The defaults of the signature.\<close>

definition default_args :: "string \<Rightarrow> 'w \<Rightarrow> 'w embed_args" where
  "default_args path ws =
     \<lparr>filepath = path, widgets = ws, makedirs = True, title = ''IPyVolume Widget'',
      all_states = False, offline = False, offline_req = True,
      scripts_path = ''scripts_folder'', drop_defaults = False, template = html_template,
      template_options = [(''extra_script_head'', ''''), (''body_pre'', ''''), (''body_post'', '''')],
      devmode = False\<rparr>"

text \<open>Lines 135 and 136: the defaults, then the caller's options over them.\<close>

definition template_opts_of :: "'w embed_args \<Rightarrow> (string \<Rightarrow> string option)" where
  "template_opts_of a =
     [''title'' \<mapsto> title a, ''extra_script_head'' \<mapsto> '''', ''body_pre'' \<mapsto> '''',
      ''body_post'' \<mapsto> ''''] ++ py_dict (template_options a)"

text \<open>\<^verbatim>\<open>wembed.embed_minimal_html\<close> writes the page of the framework to the file.\<close>

definition embed_minimal_html :: "('w, 's) env \<Rightarrow> string \<Rightarrow> 'w \<Rightarrow> 's option \<Rightarrow> bool \<Rightarrow> unit io" where
  "embed_minimal_html e path ws st dd = write_text e path (minimal_html e ws st dd)"

text \<open>
  Lines 151 to 167, the body of \<^verbatim>\<open>if offline_req:\<close>. It returns the four local
  variables it assigns: \<^verbatim>\<open>rel_script_path\<close>, \<^verbatim>\<open>fname_require\<close>, \<^verbatim>\<open>fname_embed\<close>,
  \<^verbatim>\<open>fname_fontawe\<close>.
\<close>

definition resolve_scripts_path :: "'w embed_args \<Rightarrow> string" where
  "resolve_scripts_path a =
     (if \<not> isabs (scripts_path a) then path_join (dirname (filepath a)) [scripts_path a]
      else scripts_path a)"

definition offline_req_block ::
  "('w, 's) env \<Rightarrow> 'w embed_args \<Rightarrow> string \<Rightarrow> (string \<times> string \<times> string \<times> string) io" where
  "offline_req_block e a dir_name_dst =
     (let scripts = resolve_scripts_path a
      in case relpath (cwd e) scripts (dirname (filepath a)) of
           Inl err \<Rightarrow> raise_io err
         | Inr rel \<Rightarrow>
             if startswith rel ''..''
             then raise_io (ValueError ''The scripts_path must have the same root directory as the filepath'')
             else
               let rel_script_path = (if rel = ''.'' then [] else rel @ ''/'')
               in bind_io (save_ipyvolumejs e dir_name_dst (version_js e) (devmode a)) (\<lambda>_.
                  bind_io (save_requirejs e (path_join scripts []) ''2.3.4'') (\<lambda>fname_require.
                  bind_io (save_embed_js e (path_join scripts []) (html_manager_version e)) (\<lambda>fname_embed.
                  bind_io (save_font_awesome e (path_join scripts []) ''4.7.0'') (\<lambda>fname_fontawe.
                    return_io (rel_script_path, fname_require, fname_embed, fname_fontawe))))))"

text \<open>Reading a local variable: unassigned, it raises.\<close>

definition read_local :: "string \<Rightarrow> 'a option \<Rightarrow> 'a io" where
  "read_local name v =
     (case v of
        None \<Rightarrow> raise_io (UnboundLocalError name)
      | Some x \<Rightarrow> return_io x)"

definition offline_snippet_template :: string where
  "offline_snippet_template =
     ''\<newline><link href=\"{rel_script_path}{fname_fontawe}/css/font-awesome.min.css\" rel=\"stylesheet\">    \<newline>'' @
     ''<script src=\"{rel_script_path}{fname_require}\" crossorigin=\"anonymous\"></script>\<newline>'' @
     ''{snippet}\<newline>        ''"

text \<open>Lines 131 to 133.\<close>

definition make_output_dir :: "('w, 's) env \<Rightarrow> 'w embed_args \<Rightarrow> unit io" where
  "make_output_dir e a =
     (let dir_name_dst = dirname (abspath (cwd e) (filepath a))
      in bind_io (os_path_exists e dir_name_dst) (\<lambda>there.
         if \<not> there \<and> makedirs a then os_makedirs e dir_name_dst else return_io ()))"

text \<open>
  Lines 169 to 182. The four local variables come as options: \<open>None\<close> is a variable
  that no statement has assigned.
\<close>

definition offline_page ::
  "('w, 's) env \<Rightarrow> 'w embed_args \<Rightarrow> 's option \<Rightarrow>
   string option \<times> string option \<times> string option \<times> string option \<Rightarrow> unit io" where
  "offline_page e a state locals =
     (case locals of (rel_script_path, fname_require, fname_embed, fname_fontawe) \<Rightarrow>
        bind_io (read_local ''rel_script_path'' rel_script_path) (\<lambda>rel.
        bind_io (read_local ''fname_embed'' fname_embed) (\<lambda>emb.
        let snippet = embed_snippet e (widgets a) (rel @ emb) (drop_defaults a) state
        in bind_io (read_local ''fname_fontawe'' fname_fontawe) (\<lambda>fa.
           bind_io (read_local ''fname_require'' fname_require) (\<lambda>req.
           bind_io (format_io offline_snippet_template
                      [''rel_script_path'' \<mapsto> rel, ''fname_fontawe'' \<mapsto> fa,
                       ''fname_require'' \<mapsto> req, ''snippet'' \<mapsto> snippet]) (\<lambda>offline_snippet.
           bind_io (format_io (template a) ((template_opts_of a)(''snippet'' \<mapsto> offline_snippet)))
             (\<lambda>html_code.
             write_text e (filepath a) html_code)))))))"

definition embed_html :: "('w, 's) env \<Rightarrow> 'w embed_args \<Rightarrow> unit io" where
  "embed_html e a =
     (let dir_name_dst = dirname (abspath (cwd e) (filepath a))
      in bind_io (make_output_dir e a) (\<lambda>_.
         let state = (if all_states a then None
                      else Some (dependency_state e (widgets a) (drop_defaults a)))
         in if \<not> offline a then
              bind_io (embed_minimal_html e (filepath a) (widgets a) state (drop_defaults a)) (\<lambda>_.
              let directory = dirname (filepath a);
                  threejs = threejs_path e
              in shutil_copy e threejs directory)
            else
              bind_io (if offline_req a then
                         bind_io (offline_req_block e a dir_name_dst) (\<lambda>(r, q, m, f).
                           return_io (Some r, Some q, Some m, Some f))
                       else return_io (None, None, None, None))
                (offline_page e a state)))"

text \<open>The network requests of a trace, in order.\<close>

fun net_requests :: "effect list \<Rightarrow> string list" where
  "net_requests [] = []"
| "net_requests (NetGet u # evs) = u # net_requests evs"
| "net_requests (_ # evs) = net_requests evs"

text \<open>The copies of a trace, source and destination, and its writes, path and content.\<close>

fun copies :: "effect list \<Rightarrow> (string \<times> string) list" where
  "copies [] = []"
| "copies (CopyFile s d # evs) = (s, d) # copies evs"
| "copies (_ # evs) = copies evs"

fun writes :: "effect list \<Rightarrow> (string \<times> string) list" where
  "writes [] = []"
| "writes (WriteFile p c # evs) = (p, c) # writes evs"
| "writes (_ # evs) = writes evs"

section \<open>A concrete world\<close>

text \<open>
  An installed package under \<^verbatim>\<open>/lib/ipyvolume\<close>, a working directory \<^verbatim>\<open>/home/u\<close>, a
  network that answers every request, and an archive with one top-level folder. The
  theorems below are exercised on it.
\<close>

definition demo_env :: "(unit, unit) env" where
  "demo_env =
     \<lparr>cwd = ''/home/u'', pkg_path = ''/lib/ipyvolume'', version_js = ''0.4.0'',
      html_manager_version = ''^0.9.0'',
      net = (\<lambda>u. Some (''body of '' @ u)),
      zip_members = (\<lambda>c. Some [(''fa/'', ''''), (''fa/css/font-awesome.min.css'', ''css'')]),
      dependency_state = (\<lambda>w d. ()),
      embed_snippet = (\<lambda>w u d s. ''<script src=\"'' @ u @ ''\"></script>''),
      minimal_html = (\<lambda>w s d. ''<html>minimal</html>'')\<rparr>"

definition demo_world :: world where
  "demo_world =
     \<lparr>fs = [(''/'', Dir), (''/home'', Dir), (''/home/u'', Dir), (''/lib'', Dir),
            (''/lib/ipyvolume'', Dir), (''/lib/ipyvolume/static'', Dir),
            (''/lib/ipyvolume/static/three.js'', File ''THREE'')],
      trace = []\<rparr>"

text \<open>The same with a developer build beside the package, at \<^verbatim>\<open>/lib/js/dist/index.js\<close>.\<close>

definition dev_world :: world where
  "dev_world =
     \<lparr>fs = [(''/lib/js'', Dir), (''/lib/js/dist'', Dir), (''/lib/js/dist/index.js'', File ''DEV'')]
            @ fs demo_world,
      trace = []\<rparr>"

text \<open>\<^verbatim>\<open>embed_html("out/page.html", ws, offline=True, scripts_path=sp)\<close>\<close>

definition bundled_args :: "string \<Rightarrow> unit embed_args" where
  "bundled_args sp = (default_args ''out/page.html'' ())\<lparr>offline := True, scripts_path := sp\<rparr>"

section \<open>Computations\<close>

lemma bind_return [simp]: "bind_io (return_io x) f = f x"
  by (simp add: bind_io_def return_io_def)

lemma bind_raise [simp]: "bind_io (raise_io err) f = raise_io err"
  by (simp add: bind_io_def raise_io_def)

section \<open>The unassigned local variables\<close>

lemma offline_page_unassigned:
  "offline_page e a st (None, q, m, f) = raise_io (UnboundLocalError ''rel_script_path'')"
  by (simp add: offline_page_def read_local_def)

text \<open>
  Claim C2. With \<^verbatim>\<open>offline=True\<close> and \<^verbatim>\<open>offline_req=False\<close> the call never returns
  normally: once the output directory is there (lines 131 to 133; a failure to create it
  is raised as it is), line 169 reads \<^verbatim>\<open>rel_script_path\<close>, which only the
  \<^verbatim>\<open>offline_req\<close> branch assigns, and raises \<^verbatim>\<open>UnboundLocalError\<close>.
\<close>

theorem offline_without_req_unbound:
  assumes "offline a" and "\<not> offline_req a"
  shows "embed_html e a w =
           (case make_output_dir e a w of
              (Inl err, w1) \<Rightarrow> (Inl err, w1)
            | (Inr u, w1) \<Rightarrow> (Inl (UnboundLocalError ''rel_script_path''), w1))
         \<and> fst (embed_html e a w) \<noteq> Inr ()"
proof -
  have eq: "embed_html e a w =
           (case make_output_dir e a w of
              (Inl err, w1) \<Rightarrow> (Inl err, w1)
            | (Inr u, w1) \<Rightarrow> (Inl (UnboundLocalError ''rel_script_path''), w1))"
    using assms
    by (simp add: embed_html_def Let_def offline_page_unassigned)
       (simp add: bind_io_def raise_io_def split: prod.splits sum.splits)
  show ?thesis
    unfolding eq by (simp split: prod.splits sum.splits)
qed

theorem offline_without_req_unbound_witness:
  "offline ((bundled_args ''scripts'')\<lparr>offline_req := False\<rparr>)
   \<and> \<not> offline_req ((bundled_args ''scripts'')\<lparr>offline_req := False\<rparr>)
   \<and> fst (embed_html demo_env ((bundled_args ''scripts'')\<lparr>offline_req := False\<rparr>) demo_world)
       = Inl (UnboundLocalError ''rel_script_path'')"
proof -
  let ?a = "(bundled_args ''scripts'')\<lparr>offline_req := False\<rparr>"
  have h1: "offline ?a" by (simp add: bundled_args_def)
  have h2: "\<not> offline_req ?a" by simp
  have m: "fst (make_output_dir demo_env ?a demo_world) = Inr ()" by code_simp
  from offline_without_req_unbound [OF h1 h2, of demo_env demo_world] m
  have "fst (embed_html demo_env ?a demo_world) = Inl (UnboundLocalError ''rel_script_path'')"
    by (simp split: prod.splits sum.splits)
  with h1 h2 show ?thesis by simp
qed

section \<open>Rendering a template\<close>

lemma render_missing:
  "k \<in> set (fields_of ts) \<Longrightarrow> m k = None \<Longrightarrow> \<forall>f\<in>set (fields_of ts). \<not> positional f \<Longrightarrow>
   \<exists>k'. render ts m out = Some (Inl (KeyError k')) \<and> k' \<in> set (fields_of ts) \<and> m k' = None"
proof (induction ts arbitrary: out)
  case Nil
  then show ?case by simp
next
  case (Cons tok ts)
  show ?case
  proof (cases tok)
    case (Lit s)
    with Cons show ?thesis by simp
  next
    case (Fld f)
    show ?thesis
    proof (cases "m f")
      case None
      with Fld Cons.prems show ?thesis by auto
    next
      case (Some v)
      with Fld Cons.prems have "k \<in> set (fields_of ts)" by auto
      with Cons.IH [of "out @ v"] Cons.prems Fld Some show ?thesis by auto
    qed
  next
    case (Bad err)
    with Cons.prems show ?thesis by simp
  next
    case Unmodelled
    with Cons.prems show ?thesis by simp
  qed
qed

lemma render_plain:
  "plain_tokens ts \<Longrightarrow> set (fields_of ts) \<subseteq> dom m1 \<Longrightarrow> \<forall>k\<in>set (fields_of ts). m1 k = m2 k \<Longrightarrow>
   \<exists>html. render ts m1 out = Some (Inr html) \<and> render ts m2 out = Some (Inr html)"
proof (induction ts arbitrary: out)
  case Nil
  then show ?case by simp
next
  case (Cons tok ts)
  then show ?case
    by (cases tok) (auto split: option.splits)
qed

lemma html_template_fields:
  "field_names html_template =
     [''title'', ''extra_script_head'', ''body_pre'', ''snippet'', ''body_post'']"
  by code_simp

lemma html_template_plain: "plain_template html_template"
  by code_simp





section \<open>The title\<close>

lemma template_opts_title:
  "py_dict (template_options a) ''title'' = Some v \<Longrightarrow> template_opts_of a ''title'' = Some v"
  by (simp add: template_opts_of_def map_add_def)

lemma template_opts_title_update:
  assumes "py_dict (template_options a) ''title'' = Some v"
  shows "template_opts_of (a\<lparr>title := t\<rparr>) = template_opts_of a"
proof
  fix x
  show "template_opts_of (a\<lparr>title := t\<rparr>) x = template_opts_of a x"
    using assms
    by (cases "x = ''title''") (simp_all add: template_opts_of_def map_add_def split: option.splits)
qed



section \<open>Traces of the primitive calls\<close>

lemma net_requests_append [simp]:
  "net_requests (xs @ ys) = net_requests xs @ net_requests ys"
  by (induction xs rule: net_requests.induct) simp_all

lemma copies_append [simp]: "copies (xs @ ys) = copies xs @ copies ys"
  by (induction xs rule: copies.induct) simp_all

lemma writes_append [simp]: "writes (xs @ ys) = writes xs @ writes ys"
  by (induction xs rule: writes.induct) simp_all

lemmas io_defs = bind_io_def return_io_def raise_io_def log_io_def fs_io_def except_io_def
  os_path_exists_def

lemma bind_io_cases:
  assumes "bind_io m f w = (r, w')"
  obtains (fail) err where "m w = (Inl err, w')" "r = Inl err"
        | (ok) x w1 where "m w = (Inr x, w1)" "f x w1 = (r, w')"
  using assms by (auto simp: bind_io_def split: prod.splits sum.splits)

lemma os_makedirs_trace:
  "os_makedirs e p w = (r, w') \<Longrightarrow> trace w' = trace w @ [MkDirs p]"
  by (auto simp: os_makedirs_def io_defs split: sum.splits)

lemma shutil_copy_trace:
  "shutil_copy e s d w = (r, w') \<Longrightarrow> trace w' = trace w @ [CopyFile s d]"
  by (auto simp: shutil_copy_def io_defs split: sum.splits)

lemma os_rename_trace:
  "os_rename e s d w = (r, w') \<Longrightarrow> trace w' = trace w @ [Rename s d]"
  by (auto simp: os_rename_def io_defs split: sum.splits)

lemma write_text_trace:
  "write_text e p c w = (r, w') \<Longrightarrow> trace w' = trace w @ [WriteFile p c]"
  by (auto simp: write_text_def io_defs split: sum.splits)

lemma extractall_trace:
  "extractall e p ms w = (r, w') \<Longrightarrow> trace w' = trace w @ [ExtractAll p]"
  by (auto simp: extractall_def io_defs split: sum.splits prod.splits option.splits)

lemma download_to_bytes_run:
  "download_to_bytes e u w = (r, w') \<Longrightarrow>
   w' = w\<lparr>trace := trace w @ [NetGet u]\<rparr> \<and> (\<forall>c. r = Inr c \<longrightarrow> net e u = Some c)"
  by (auto simp: download_to_bytes_def io_defs split: sum.splits option.splits)

lemma unzip_to_trace:
  "unzip_to e c d w = (r, w') \<Longrightarrow>
   \<exists>evs. trace w' = trace w @ evs \<and> net_requests evs = [] \<and> copies evs = []
     \<and> writes evs = []"
  by (auto simp: unzip_to_def io_defs split: sum.splits option.splits list.splits prod.splits
      dest!: extractall_trace)

section \<open>The icon-font archive\<close>

lemma fs_rename_exists:
  assumes "fs_rename c src dst l = Inr l'"
  shows "path_exists c l' dst"
proof -
  from assms have ne: "dst \<noteq> []"
    by (auto simp: fs_rename_def split: if_splits)
  from assms ne obtain n where n: "map_of l (abspath c src) = Some n"
    by (auto simp: fs_rename_def Let_def split: if_splits option.splits)
  show ?thesis
  proof (cases "abspath c src = abspath c dst")
    case True
    with assms n ne show ?thesis
      by (auto simp: fs_rename_def Let_def path_exists_def split: if_splits)
  next
    case False
    let ?a = "abspath c src" and ?b = "abspath c dst"
    let ?f = "\<lambda>kv. if fst kv = ?a then (?b, snd kv)
                    else if below ?a (fst kv) then (?b @ drop (length ?a) (fst kv), snd kv)
                    else kv"
    from assms n ne False have l': "l' = map ?f (filter (\<lambda>kv. fst kv \<noteq> ?b) l)"
      by (auto simp: fs_rename_def Let_def split: if_splits)
    from n have "(?a, n) \<in> set l" by (rule map_of_SomeD)
    with False have "(?a, n) \<in> set (filter (\<lambda>kv. fst kv \<noteq> ?b) l)" by simp
    then have "?f (?a, n) \<in> ?f ` set (filter (\<lambda>kv. fst kv \<noteq> ?b) l)" by (rule imageI)
    then have "(?b, n) \<in> set l'" unfolding l' set_map by simp
    then have "?b \<in> fst ` set l'" by force
    then have "map_of l' ?b \<noteq> None" by (simp add: map_of_eq_None_iff)
    with ne show ?thesis by (simp add: path_exists_def)
  qed
qed

lemma os_rename_exists:
  "os_rename e s d w = (Inr u, w') \<Longrightarrow> path_exists (cwd e) (fs w') d"
  by (auto simp: os_rename_def io_defs split: sum.splits dest: fs_rename_exists)

lemma save_font_awesome_cached:
  "path_exists (cwd e) (fs w) (path_join dirpath [''font-awesome-'' @ version]) \<Longrightarrow>
   save_font_awesome e dirpath version w = (Inr (''font-awesome-'' @ version), w)"
  by (simp add: save_font_awesome_def io_defs Let_def)

lemma save_font_awesome_run:
  assumes "save_font_awesome e dirpath version w = (r, w')"
  shows "\<exists>evs. trace w' = trace w @ evs
           \<and> (net_requests evs = []
                \<or> net_requests evs = [''http://fontawesome.io/assets/font-awesome-'' @ version @ ''.zip''])
           \<and> copies evs = [] \<and> writes evs = []
           \<and> (\<forall>n. r = Inr n \<longrightarrow> n = ''font-awesome-'' @ version
                 \<and> path_exists (cwd e) (fs w') (path_join dirpath [''font-awesome-'' @ version]))"
proof (cases "path_exists (cwd e) (fs w) (path_join dirpath [''font-awesome-'' @ version])")
  case True
  from save_font_awesome_cached [OF True] assms True show ?thesis by simp
next
  case False
  let ?url = "''http://fontawesome.io/assets/font-awesome-'' @ version @ ''.zip''"
  let ?folder = "path_join dirpath [''font-awesome-'' @ version]"
  let ?w1 = "w\<lparr>trace := trace w @ [NetGet ?url]\<rparr>"
  show ?thesis
  proof (cases "net e ?url")
    case None
    with False assms show ?thesis
      by (auto simp: save_font_awesome_def download_to_bytes_def io_defs Let_def)
  next
    case (Some content)
    obtain r1 w2 where u: "unzip_to e content dirpath ?w1 = (r1, w2)"
      by (cases "unzip_to e content dirpath ?w1")
    from unzip_to_trace [OF u] obtain evs where
      t2: "trace w2 = trace w @ NetGet ?url # evs" "net_requests evs = []"
          "copies evs = []" "writes evs = []"
      by auto
    show ?thesis
    proof (cases r1)
      case (Inl err)
      with False Some u assms have "w' = w2" and "\<exists>err'. r = Inl err'"
        by (auto simp: save_font_awesome_def download_to_bytes_def io_defs Let_def)
      with t2 show ?thesis by auto
    next
      case (Inr top)
      obtain r3 w3 where rn: "os_rename e (path_join dirpath [top]) ?folder w2 = (r3, w3)"
        by (cases "os_rename e (path_join dirpath [top]) ?folder w2")
      from os_rename_trace [OF rn] t2
      have t3: "trace w3 = trace w @ NetGet ?url # evs @ [Rename (path_join dirpath [top]) ?folder]"
        by simp
      from False Some u Inr rn assms
      have res: "w' = w3"
        "r = (case r3 of Inl err \<Rightarrow> Inl err | Inr _ \<Rightarrow> Inr (''font-awesome-'' @ version))"
        by (auto simp: save_font_awesome_def download_to_bytes_def io_defs Let_def
            split: sum.splits)
      show ?thesis
      proof (cases r3)
        case (Inl err)
        with res t3 t2 show ?thesis by auto
      next
        case (Inr x)
        with rn have "path_exists (cwd e) (fs w3) ?folder"
          by (auto dest: os_rename_exists)
        with res t3 t2 Inr show ?thesis by auto
      qed
    qed
  qed
qed

text \<open>
  Claim C3. When the folder \<^verbatim>\<open>font-awesome-<version>\<close> exists under the destination,
  \<^verbatim>\<open>save_font_awesome\<close> returns the folder name and leaves the world as it is: no
  request, no write. A call that returns has made the folder exist, so a second call
  right after it returns the same name and changes nothing, and the two calls together
  make at most one request.
\<close>

theorem font_awesome_idempotent:
  "(path_exists (cwd e) (fs w) (path_join dirpath [''font-awesome-'' @ version]) \<longrightarrow>
      save_font_awesome e dirpath version w = (Inr (''font-awesome-'' @ version), w))
   \<and> (\<forall>n w1. save_font_awesome e dirpath version w = (Inr n, w1) \<longrightarrow>
         n = ''font-awesome-'' @ version
         \<and> save_font_awesome e dirpath version w1 = (Inr n, w1)
         \<and> length (net_requests (trace w1)) \<le> Suc (length (net_requests (trace w))))"
proof (intro conjI allI impI)
  assume "path_exists (cwd e) (fs w) (path_join dirpath [''font-awesome-'' @ version])"
  then show "save_font_awesome e dirpath version w = (Inr (''font-awesome-'' @ version), w)"
    by (rule save_font_awesome_cached)
next
  fix n w1
  assume run: "save_font_awesome e dirpath version w = (Inr n, w1)"
  from save_font_awesome_run [OF run] obtain evs where
    evs: "trace w1 = trace w @ evs" "length (net_requests evs) \<le> 1"
    and n: "n = ''font-awesome-'' @ version"
    and ex: "path_exists (cwd e) (fs w1) (path_join dirpath [''font-awesome-'' @ version])"
    by auto
  show "n = ''font-awesome-'' @ version" by (rule n)
  from save_font_awesome_cached [OF ex] n
  show "save_font_awesome e dirpath version w1 = (Inr n, w1)" by simp
  from evs show "length (net_requests (trace w1)) \<le> Suc (length (net_requests (trace w)))"
    by simp
qed

theorem font_awesome_idempotent_witness:
  "fst (save_font_awesome demo_env ''out/scripts'' ''4.7.0'' demo_world)
     = Inr (''font-awesome-'' @ ''4.7.0'')
   \<and> path_exists (cwd demo_env)
        (fs (snd (save_font_awesome demo_env ''out/scripts'' ''4.7.0'' demo_world)))
        (path_join ''out/scripts'' [''font-awesome-'' @ ''4.7.0''])
   \<and> save_font_awesome demo_env ''out/scripts'' ''4.7.0''
        (snd (save_font_awesome demo_env ''out/scripts'' ''4.7.0'' demo_world))
       = (Inr (''font-awesome-'' @ ''4.7.0''),
          snd (save_font_awesome demo_env ''out/scripts'' ''4.7.0'' demo_world))
   \<and> length (net_requests (trace (snd (save_font_awesome demo_env ''out/scripts'' ''4.7.0'' demo_world))))
       \<le> Suc (length (net_requests (trace demo_world)))"
proof -
  define r where "r = save_font_awesome demo_env ''out/scripts'' ''4.7.0'' demo_world"
  have first: "fst r = Inr (''font-awesome-'' @ ''4.7.0'')"
    unfolding r_def by code_simp
  have run: "save_font_awesome demo_env ''out/scripts'' ''4.7.0'' demo_world
               = (Inr (''font-awesome-'' @ ''4.7.0''), snd r)"
    using first unfolding r_def by (metis prod.collapse)
  have ex: "path_exists (cwd demo_env) (fs (snd r))
              (path_join ''out/scripts'' [''font-awesome-'' @ ''4.7.0''])"
    unfolding r_def by code_simp
  have again: "save_font_awesome demo_env ''out/scripts'' ''4.7.0'' (snd r)
                 = (Inr (''font-awesome-'' @ ''4.7.0''), snd r)"
    by (rule font_awesome_idempotent [THEN conjunct1, THEN mp, OF ex])
  have once: "length (net_requests (trace (snd r))) \<le> Suc (length (net_requests (trace demo_world)))"
    by (rule font_awesome_idempotent
          [THEN conjunct2, rule_format, OF run, THEN conjunct2, THEN conjunct2])
  from first ex again once show ?thesis
    unfolding r_def by (intro conjI)
qed

text \<open>
  Claim C5. When the archive was fetched and opening or extracting it fails with some
  exception, \<^verbatim>\<open>save_font_awesome\<close> raises \<^verbatim>\<open>IOError\<close> instead, with the message
  \<^verbatim>\<open>Could not unzip content from: <url>\<close>, a line break and the text of that exception.
\<close>

theorem unzip_failure_reraised:
  assumes "\<not> path_exists (cwd e) (fs w) (path_join dirpath [''font-awesome-'' @ version])"
    and "net e (''http://fontawesome.io/assets/font-awesome-'' @ version @ ''.zip'') = Some content"
    and "unzip_to e content dirpath
           (w\<lparr>trace := trace w @ [NetGet (''http://fontawesome.io/assets/font-awesome-'' @ version @ ''.zip'')]\<rparr>)
         = (Inl err, w')"
  shows "save_font_awesome e dirpath version w =
           (Inl (IOError (''Could not unzip content from: '' @
                          ''http://fontawesome.io/assets/font-awesome-'' @ version @ ''.zip'' @
                          ''\<newline>'' @ error_str err)), w')"
  using assms
  by (simp add: save_font_awesome_def download_to_bytes_def io_defs Let_def)

theorem unzip_failure_reraised_witness:
  "\<not> path_exists (cwd (demo_env\<lparr>zip_members := (\<lambda>c. None)\<rparr>)) (fs demo_world)
        (path_join ''out/scripts'' [''font-awesome-'' @ ''4.7.0''])
   \<and> net (demo_env\<lparr>zip_members := (\<lambda>c. None)\<rparr>)
        (''http://fontawesome.io/assets/font-awesome-'' @ ''4.7.0'' @ ''.zip'')
       = Some (''body of '' @ ''http://fontawesome.io/assets/font-awesome-'' @ ''4.7.0'' @ ''.zip'')
   \<and> save_font_awesome (demo_env\<lparr>zip_members := (\<lambda>c. None)\<rparr>) ''out/scripts'' ''4.7.0'' demo_world
       = (Inl (IOError (''Could not unzip content from: '' @
                        ''http://fontawesome.io/assets/font-awesome-'' @ ''4.7.0'' @ ''.zip'' @
                        ''\<newline>'' @ error_str (BadZipFile ''File is not a zip file''))),
          demo_world\<lparr>trace := trace demo_world @
             [NetGet (''http://fontawesome.io/assets/font-awesome-'' @ ''4.7.0'' @ ''.zip'')]\<rparr>)"
proof -
  let ?e = "demo_env\<lparr>zip_members := (\<lambda>c. None)\<rparr>"
  let ?url = "''http://fontawesome.io/assets/font-awesome-'' @ ''4.7.0'' @ ''.zip''"
  let ?w1 = "demo_world\<lparr>trace := trace demo_world @ [NetGet ?url]\<rparr>"
  have h1: "\<not> path_exists (cwd ?e) (fs demo_world)
              (path_join ''out/scripts'' [''font-awesome-'' @ ''4.7.0''])"
    by code_simp
  have h2: "net ?e ?url = Some (''body of '' @ ?url)"
    by (simp add: demo_env_def)
  have h3: "unzip_to ?e (''body of '' @ ?url) ''out/scripts'' ?w1
              = (Inl (BadZipFile ''File is not a zip file''), ?w1)"
    by (simp add: unzip_to_def raise_io_def)
  from h1 h2 unzip_failure_reraised [OF h1 h2 h3] show ?thesis
    by (intro conjI)
qed

section \<open>Runs of the downloaders\<close>

text \<open>What a run adds to the trace: its requests, its copies and its writes.\<close>

lemma bind_exists:
  "bind_io (os_path_exists e p) f w = f (path_exists (cwd e) (fs w) p) w"
  by (simp add: io_defs)

lemma bind_exists_nested:
  "bind_io (bind_io (os_path_exists e p) g) f w = bind_io (g (path_exists (cwd e) (fs w) p)) f w"
  by (simp add: io_defs)

lemma return_io_run: "return_io x w = (r, w') \<Longrightarrow> r = Inr x \<and> w' = w"
  by (auto simp: return_io_def)

lemma bind_io_Inr:
  assumes "bind_io m f w = (Inr y, w')"
  obtains x w1 where "m w = (Inr x, w1)" "f x w1 = (Inr y, w')"
  using assms by (auto simp: bind_io_def split: prod.splits sum.splits)

lemma makedirs_if_run:
  assumes "(if c then os_makedirs e p else return_io ()) w = (r, w')"
  shows "\<exists>evs. trace w' = trace w @ evs \<and> net_requests evs = [] \<and> copies evs = []
           \<and> writes evs = []"
proof (cases c)
  case True
  with assms have "os_makedirs e p w = (r, w')" by simp
  from os_makedirs_trace [OF this] show ?thesis by simp
next
  case False
  with assms have "return_io () w = (r, w')" by simp
  from return_io_run [OF this] show ?thesis by simp
qed

lemma download_to_file_run:
  assumes "download_to_file e url p w = (r, w')"
  shows "\<exists>evs. trace w' = trace w @ evs \<and> net_requests evs = [url] \<and> copies evs = []
           \<and> (r = Inr () \<longrightarrow> (\<exists>c. net e url = Some c \<and> writes evs = [(p, c)]))"
  using assms unfolding download_to_file_def
proof (cases rule: bind_io_cases)
  case (fail err)
  from download_to_bytes_run [OF fail(1)] fail(2) show ?thesis by simp
next
  case (ok c w1)
  from download_to_bytes_run [OF ok(1)]
  have w1: "trace w1 = trace w @ [NetGet url]" and c: "net e url = Some c"
    by simp_all
  from ok(2) have "bind_io (if dirname p \<noteq> [] \<and> \<not> path_exists (cwd e) (fs w1) (dirname p)
                            then os_makedirs e (dirname p) else return_io ())
                     (\<lambda>_. write_text e p c) w1 = (r, w')"
    by (simp add: bind_exists)
  then show ?thesis
  proof (cases rule: bind_io_cases)
    case (fail err)
    from makedirs_if_run [OF fail(1)] obtain evs where
      "trace w' = trace w1 @ evs" "net_requests evs = []" "copies evs = []" by blast
    with w1 fail(2) have "trace w' = trace w @ (NetGet url # evs)
      \<and> net_requests (NetGet url # evs) = [url] \<and> copies (NetGet url # evs) = []
      \<and> (r = Inr () \<longrightarrow> (\<exists>c. net e url = Some c \<and> writes (NetGet url # evs) = [(p, c)]))"
      by simp
    then show ?thesis by blast
  next
    case (ok x w2)
    from makedirs_if_run [OF ok(1)] obtain evs where
      evs: "trace w2 = trace w1 @ evs" "net_requests evs = []" "copies evs = []" "writes evs = []"
      by blast
    from write_text_trace [OF ok(2)] have "trace w' = trace w2 @ [WriteFile p c]" .
    with w1 evs c have "trace w' = trace w @ (NetGet url # evs @ [WriteFile p c])
      \<and> net_requests (NetGet url # evs @ [WriteFile p c]) = [url]
      \<and> copies (NetGet url # evs @ [WriteFile p c]) = []
      \<and> (r = Inr () \<longrightarrow> (\<exists>c'. net e url = Some c'
             \<and> writes (NetGet url # evs @ [WriteFile p c]) = [(p, c')]))"
      by simp
    then show ?thesis by blast
  qed
qed

lemma copy_then_name_run:
  assumes "bind_io (shutil_copy e s d) (\<lambda>_. return_io n) w = (r, w')"
  shows "\<exists>evs. trace w' = trace w @ evs \<and> net_requests evs = [] \<and> writes evs = []
           \<and> (\<forall>x. r = Inr x \<longrightarrow> x = n \<and> copies evs = [(s, d)])"
  using assms
proof (cases rule: bind_io_cases)
  case (fail err)
  from shutil_copy_trace [OF fail(1)] fail(2) show ?thesis by simp
next
  case (ok x w1)
  from shutil_copy_trace [OF ok(1)] return_io_run [OF ok(2)] show ?thesis by simp
qed

lemma makedirs_then_copy_run:
  assumes "bind_io (if c then os_makedirs e p else return_io ()) (\<lambda>_. shutil_copy e s d) w = (r, w')"
  shows "\<exists>evs. trace w' = trace w @ evs \<and> net_requests evs = [] \<and> writes evs = []
           \<and> (r = Inr () \<longrightarrow> copies evs = [(s, d)])"
  using assms
proof (cases rule: bind_io_cases)
  case (fail err)
  from makedirs_if_run [OF fail(1)] fail(2) show ?thesis by auto
next
  case (ok x w1)
  from makedirs_if_run [OF ok(1)] obtain evs where
    evs: "trace w1 = trace w @ evs" "net_requests evs = []" "copies evs = []" "writes evs = []"
    by blast
  from shutil_copy_trace [OF ok(2)] evs
  have "trace w' = trace w @ (evs @ [CopyFile s d]) \<and> net_requests (evs @ [CopyFile s d]) = []
        \<and> writes (evs @ [CopyFile s d]) = []
        \<and> (r = Inr () \<longrightarrow> copies (evs @ [CopyFile s d]) = [(s, d)])"
    by simp
  then show ?thesis by blast
qed

lemma save_ipyvolumejs_local:
  assumes "dev" and "path_exists (cwd e) (fs w)
     (path_join (abspath (cwd e) (pkg_path e)) [''..'', ''js'', ''dist'', ''index.js''])"
  shows "save_ipyvolumejs e folderpath version dev w =
     bind_io (bind_io (if folderpath \<noteq> [] \<and> \<not> path_exists (cwd e) (fs w) folderpath
                       then os_makedirs e folderpath else return_io ())
                (\<lambda>_. shutil_copy e
                   (path_join (abspath (cwd e) (pkg_path e)) [''..'', ''js'', ''dist'', ''index.js''])
                   (path_join folderpath [''ipyvolume.js''])))
       (\<lambda>_. bind_io (shutil_copy e (threejs_path e) (dirname (path_join folderpath [''ipyvolume.js''])))
          (\<lambda>_. return_io ''ipyvolume.js'')) w"
  using assms
  by (simp add: save_ipyvolumejs_def Let_def bind_exists bind_exists_nested split del: if_split)

lemma save_ipyvolumejs_remote:
  assumes "\<not> (dev \<and> path_exists (cwd e) (fs w)
     (path_join (abspath (cwd e) (pkg_path e)) [''..'', ''js'', ''dist'', ''index.js'']))"
  shows "save_ipyvolumejs e folderpath version dev w =
     bind_io (download_to_file e (''https://unpkg.com/ipyvolume@'' @ version @ ''/dist/index.js'')
                (path_join folderpath [''ipyvolume.js'']))
       (\<lambda>_. bind_io (shutil_copy e (threejs_path e) (dirname (path_join folderpath [''ipyvolume.js''])))
          (\<lambda>_. return_io ''ipyvolume.js'')) w"
  using assms
  by (cases dev) (simp_all add: save_ipyvolumejs_def Let_def bind_exists split del: if_split)

lemma save_ipyvolumejs_run:
  assumes run: "save_ipyvolumejs e folderpath version dev w = (r, w')"
  defines "url \<equiv> ''https://unpkg.com/ipyvolume@'' @ version @ ''/dist/index.js''"
    and "target \<equiv> path_join folderpath [''ipyvolume.js'']"
    and "devfile \<equiv> path_join (abspath (cwd e) (pkg_path e)) [''..'', ''js'', ''dist'', ''index.js'']"
  shows "\<exists>evs. trace w' = trace w @ evs
           \<and> net_requests evs = (if dev \<and> path_exists (cwd e) (fs w) devfile then [] else [url])
           \<and> (\<forall>x. r = Inr x \<longrightarrow> x = ''ipyvolume.js''
                 \<and> (if dev \<and> path_exists (cwd e) (fs w) devfile
                     then writes evs = []
                          \<and> copies evs = [(devfile, target), (threejs_path e, dirname target)]
                     else (\<exists>c. net e url = Some c \<and> writes evs = [(target, c)])
                          \<and> copies evs = [(threejs_path e, dirname target)]))"
proof (cases "dev \<and> path_exists (cwd e) (fs w) devfile")
  case True
  from True
  have "save_ipyvolumejs e folderpath version dev w =
     bind_io (bind_io (if folderpath \<noteq> [] \<and> \<not> path_exists (cwd e) (fs w) folderpath
                       then os_makedirs e folderpath else return_io ())
                (\<lambda>_. shutil_copy e devfile target))
       (\<lambda>_. bind_io (shutil_copy e (threejs_path e) (dirname target))
          (\<lambda>_. return_io ''ipyvolume.js'')) w"
    unfolding devfile_def target_def by (intro save_ipyvolumejs_local) simp_all
  with run
  have "bind_io (bind_io (if folderpath \<noteq> [] \<and> \<not> path_exists (cwd e) (fs w) folderpath
                       then os_makedirs e folderpath else return_io ())
                (\<lambda>_. shutil_copy e devfile target))
       (\<lambda>_. bind_io (shutil_copy e (threejs_path e) (dirname target))
          (\<lambda>_. return_io ''ipyvolume.js'')) w = (r, w')"
    by simp
  then show ?thesis
  proof (cases rule: bind_io_cases)
    case (fail err)
    from makedirs_then_copy_run [OF fail(1)] fail(2) True show ?thesis by auto
  next
    case (ok x w1)
    from makedirs_then_copy_run [OF ok(1)] obtain evs1 where
      e1: "trace w1 = trace w @ evs1" "net_requests evs1 = []" "writes evs1 = []"
          "copies evs1 = [(devfile, target)]"
      by auto
    from copy_then_name_run [OF ok(2)] obtain evs2 where
      e2: "trace w' = trace w1 @ evs2" "net_requests evs2 = []" "writes evs2 = []"
          "\<forall>x. r = Inr x \<longrightarrow> x = ''ipyvolume.js''
                \<and> copies evs2 = [(threejs_path e, dirname target)]"
      by blast
    from e1 e2 True
    have "trace w' = trace w @ (evs1 @ evs2)
          \<and> net_requests (evs1 @ evs2) = (if dev \<and> path_exists (cwd e) (fs w) devfile then [] else [url])
          \<and> (\<forall>x. r = Inr x \<longrightarrow> x = ''ipyvolume.js''
                 \<and> (if dev \<and> path_exists (cwd e) (fs w) devfile
                     then writes (evs1 @ evs2) = []
                          \<and> copies (evs1 @ evs2) = [(devfile, target), (threejs_path e, dirname target)]
                     else (\<exists>c. net e url = Some c \<and> writes (evs1 @ evs2) = [(target, c)])
                          \<and> copies (evs1 @ evs2) = [(threejs_path e, dirname target)]))"
      by auto
    then show ?thesis by blast
  qed
next
  case False
  from False
  have "save_ipyvolumejs e folderpath version dev w =
     bind_io (download_to_file e url target)
       (\<lambda>_. bind_io (shutil_copy e (threejs_path e) (dirname target))
          (\<lambda>_. return_io ''ipyvolume.js'')) w"
    unfolding devfile_def target_def url_def by (rule save_ipyvolumejs_remote)
  with run
  have "bind_io (download_to_file e url target)
       (\<lambda>_. bind_io (shutil_copy e (threejs_path e) (dirname target))
          (\<lambda>_. return_io ''ipyvolume.js'')) w = (r, w')"
    by simp
  then show ?thesis
  proof (cases rule: bind_io_cases)
    case (fail err)
    from download_to_file_run [OF fail(1)] fail(2) False show ?thesis by auto
  next
    case (ok x w1)
    from download_to_file_run [OF ok(1)] obtain evs1 c where
      e1: "trace w1 = trace w @ evs1" "net_requests evs1 = [url]" "copies evs1 = []"
          "net e url = Some c" "writes evs1 = [(target, c)]"
      by auto
    from copy_then_name_run [OF ok(2)] obtain evs2 where
      e2: "trace w' = trace w1 @ evs2" "net_requests evs2 = []" "writes evs2 = []"
          "\<forall>x. r = Inr x \<longrightarrow> x = ''ipyvolume.js''
                \<and> copies evs2 = [(threejs_path e, dirname target)]"
      by blast
    from e1 e2 False
    have "trace w' = trace w @ (evs1 @ evs2)
          \<and> net_requests (evs1 @ evs2) = (if dev \<and> path_exists (cwd e) (fs w) devfile then [] else [url])
          \<and> (\<forall>x. r = Inr x \<longrightarrow> x = ''ipyvolume.js''
                 \<and> (if dev \<and> path_exists (cwd e) (fs w) devfile
                     then writes (evs1 @ evs2) = []
                          \<and> copies (evs1 @ evs2) = [(devfile, target), (threejs_path e, dirname target)]
                     else (\<exists>c. net e url = Some c \<and> writes (evs1 @ evs2) = [(target, c)])
                          \<and> copies (evs1 @ evs2) = [(threejs_path e, dirname target)]))"
      by auto
    then show ?thesis by blast
  qed
qed

section \<open>Paths\<close>

lemma split_sep_no_sep: "x \<in> set (split_sep c s) \<Longrightarrow> c \<notin> set x"
proof (induction s arbitrary: x)
  case Nil
  then show ?case by simp
next
  case (Cons a s)
  then show ?case
    by (cases "split_sep c s") (auto split: if_splits)
qed

lemma path_list_no_slash: "x \<in> set (path_list s) \<Longrightarrow> CHR ''/'' \<notin> set x \<and> x \<noteq> []"
  by (auto simp: path_list_def dest: split_sep_no_sep)

lemma startswith_slash_iff: "startswith b ''/'' \<longleftrightarrow> (\<exists>t. b = CHR ''/'' # t)"
  by (cases b) (auto simp: startswith_def)

lemma join2_extends: "\<not> startswith b ''/'' \<Longrightarrow> \<exists>t. join2 p b = p @ t"
  by (simp add: join2_def)

lemma path_join_extends:
  "\<forall>b\<in>set bs. \<not> startswith b ''/'' \<Longrightarrow> \<exists>t. path_join p bs = p @ t"
proof (induction bs arbitrary: p)
  case Nil
  then show ?case by (simp add: path_join_def)
next
  case (Cons b bs)
  from Cons.prems obtain t where t: "join2 p b = p @ t"
    using join2_extends [of b p] by auto
  from Cons.IH [of "join2 p b"] Cons.prems obtain t' where "path_join (join2 p b) bs = join2 p b @ t'"
    by auto
  with t show ?case by (simp add: path_join_def)
qed

lemma commonprefix_length:
  "length (commonprefix xs ys) \<le> length xs"
  by (induction xs ys rule: commonprefix.induct) simp_all

lemma commonprefix_full:
  "length (commonprefix xs ys) = length xs \<Longrightarrow> prefix xs ys"
  by (induction xs ys rule: commonprefix.induct) (auto split: if_splits)

lemma commonprefix_same [simp]: "commonprefix xs xs = xs"
  by (induction xs) simp_all

lemma relpath_outside:
  assumes "path \<noteq> []"
    and "\<not> prefix (path_list (abspath d start)) (path_list (abspath d path))"
  shows "\<exists>r. relpath d path start = Inr r \<and> startswith r ''..''"
proof -
  let ?sl = "path_list (abspath d start)" and ?pl = "path_list (abspath d path)"
  let ?i = "length (commonprefix ?sl ?pl)"
  from assms(2) commonprefix_full [of ?sl ?pl] commonprefix_length [of ?sl ?pl]
  have "?i < length ?sl" by (cases "?i = length ?sl") auto
  then obtain n where n: "length ?sl - ?i = Suc n" by (cases "length ?sl - ?i") auto
  let ?rs = "replicate n ''..'' @ drop ?i ?pl"
  have rel: "relpath d path start = Inr (path_join ''..'' ?rs)"
    using assms(1) n by (simp add: relpath_def Let_def)
  have "\<forall>b\<in>set ?rs. \<not> startswith b ''/''"
  proof
    fix b assume "b \<in> set ?rs"
    then have "b = ''..'' \<or> b \<in> set ?pl" by (auto dest: in_set_dropD)
    then show "\<not> startswith b ''/''"
      by (auto simp: startswith_slash_iff dest: path_list_no_slash)
  qed
  from path_join_extends [OF this, of "''..''"] obtain t where "path_join ''..'' ?rs = ''..'' @ t"
    by blast
  with rel show ?thesis by (simp add: startswith_def)
qed

lemma relpath_same:
  assumes "path \<noteq> []" and "abspath d path = abspath d start"
  shows "relpath d path start = Inr ''.''"
  using assms by (simp add: relpath_def Let_def)

lemma endswith_slash_iff: "endswith s ''/'' \<longleftrightarrow> s \<noteq> [] \<and> last s = CHR ''/''"
proof (cases s rule: rev_cases)
  case Nil
  then show ?thesis by (simp add: endswith_def)
next
  case (snoc ys y)
  then show ?thesis by (auto simp: endswith_def)
qed

lemma rstrip_no_trailing:
  "s \<noteq> [] \<Longrightarrow> last s \<noteq> CHR ''/'' \<Longrightarrow> rstrip (CHR ''/'') (s @ ''/'') = s"
  by (cases s rule: rev_cases) (simp_all add: rstrip_def)

lemma head_part_append_name:
  "CHR ''/'' \<notin> set n \<Longrightarrow> head_part (p @ n) = head_part p"
proof -
  assume "CHR ''/'' \<notin> set n"
  then have "\<And>x. x \<in> set (rev n) \<Longrightarrow> x \<noteq> CHR ''/''" by auto
  then have "dropWhile (\<lambda>c. c \<noteq> CHR ''/'') (rev n @ rev p) = dropWhile (\<lambda>c. c \<noteq> CHR ''/'') (rev p)"
    by (rule dropWhile_append2)
  then show ?thesis by (simp add: head_part_def)
qed

lemma head_part_slash_end: "s \<noteq> [] \<Longrightarrow> last s = CHR ''/'' \<Longrightarrow> head_part s = s"
  by (cases s rule: rev_cases) (simp_all add: head_part_def)

lemma rstrip_shape:
  assumes "\<not> list_all (\<lambda>c. c = CHR ''/'') h"
  shows "rstrip (CHR ''/'') h \<noteq> [] \<and> last (rstrip (CHR ''/'') h) \<noteq> CHR ''/''"
proof -
  let ?ys = "dropWhile (\<lambda>x. x = CHR ''/'') (rev h)"
  from assms have ne: "?ys \<noteq> []"
    by (auto simp: list_all_iff)
  then have "hd ?ys \<noteq> CHR ''/''" using hd_dropWhile [of "\<lambda>x. x = CHR ''/''" "rev h"] by simp
  with ne show ?thesis by (simp add: rstrip_def last_rev)
qed

lemma dirname_shape:
  "dirname p = [] \<or> list_all (\<lambda>c. c = CHR ''/'') (dirname p)
   \<or> (dirname p \<noteq> [] \<and> last (dirname p) \<noteq> CHR ''/'')"
  using rstrip_shape [of "head_part p"] by (auto simp: dirname_def Let_def)

lemma dirname_of_joined:
  assumes "CHR ''/'' \<notin> set n"
    and "d = [] \<or> list_all (\<lambda>c. c = CHR ''/'') d \<or> (d \<noteq> [] \<and> last d \<noteq> CHR ''/'')"
  shows "dirname (join2 d n) = d"
proof -
  from assms(1) have ns: "\<not> startswith n ''/''" by (auto simp: startswith_slash_iff)
  consider (empty) "d = []"
    | (slashes) "d \<noteq> []" "list_all (\<lambda>c. c = CHR ''/'') d"
    | (plain) "d \<noteq> []" "last d \<noteq> CHR ''/''"
    using assms(2) by blast
  then show ?thesis
  proof cases
    case empty
    with ns have j: "join2 d n = n" by (simp add: join2_def)
    from assms(1) have "head_part ([] @ n) = head_part []" by (rule head_part_append_name)
    then have "head_part n = []" by (simp add: head_part_def)
    then have "dirname n = []" by (simp add: dirname_def)
    with j empty show ?thesis by simp
  next
    case slashes
    then have l: "last d = CHR ''/''" by (simp add: list_all_iff)
    with slashes ns have j: "join2 d n = d @ n" by (simp add: join2_def endswith_slash_iff)
    from assms(1) have "head_part (d @ n) = head_part d" by (rule head_part_append_name)
    with slashes l have "head_part (d @ n) = d" by (simp add: head_part_slash_end)
    with slashes have "dirname (d @ n) = d" by (simp add: dirname_def)
    with j show ?thesis by simp
  next
    case plain
    let ?h = "d @ ''/''"
    from plain ns have j: "join2 d n = ?h @ n" by (simp add: join2_def endswith_slash_iff)
    from assms(1) have "head_part (?h @ n) = head_part ?h" by (rule head_part_append_name)
    moreover have "head_part ?h = ?h" by (rule head_part_slash_end) simp_all
    ultimately have h: "head_part (?h @ n) = ?h" by simp
    from plain have "last d \<in> set d" by simp
    then have na: "\<not> list_all (\<lambda>c. c = CHR ''/'') ?h"
    proof (rule contrapos_pn)
      assume "list_all (\<lambda>c. c = CHR ''/'') ?h"
      then have "\<forall>x\<in>set d. x = CHR ''/''" by (simp add: list_all_iff)
      with plain(2) show "last d \<notin> set d" by blast
    qed
    have "dirname (?h @ n) = rstrip (CHR ''/'') ?h"
      unfolding dirname_def h Let_def using na by simp
    also have "\<dots> = d" using plain by (rule rstrip_no_trailing)
    finally show ?thesis unfolding j .
  qed
qed

lemma dirname_join_dirname:
  "CHR ''/'' \<notin> set n \<Longrightarrow> dirname (join2 (dirname p) n) = dirname p"
  by (rule dirname_of_joined [OF _ dirname_shape])

lemma path_join_single [simp]: "path_join a [b] = join2 a b"
  by (simp add: path_join_def)

lemma path_join_none [simp]: "path_join a [] = a"
  by (simp add: path_join_def)

section \<open>The output directory\<close>

lemma map_of_filter_key:
  "map_of (filter (\<lambda>kv. fst kv \<noteq> a) l) b = (if b = a then None else map_of l b)"
  by (induction l) auto

lemma map_of_fs_put: "map_of (fs_put a n l) b = (if b = a then Some n else map_of l b)"
  by (simp add: fs_put_def map_of_filter_key)

lemma mk_chain_files:
  "mk_chain l as = Inr l' \<Longrightarrow> (map_of l' p = Some (File c)) = (map_of l p = Some (File c))"
proof (induction as arbitrary: l)
  case Nil
  then show ?case by simp
next
  case (Cons a as)
  show ?case
  proof (cases "map_of l a")
    case None
    with Cons.prems have "mk_chain (fs_put a Dir l) as = Inr l'" by simp
    from Cons.IH [OF this] None show ?thesis by (auto simp: map_of_fs_put)
  next
    case (Some n)
    with Cons.prems have "n = Dir" and "mk_chain l as = Inr l'"
      by (cases n; simp)+
    from Cons.IH [OF this(2)] show ?thesis .
  qed
qed

lemma fs_makedirs_files:
  assumes "fs_makedirs d name l = Inr l'"
  shows "(map_of l' p = Some (File c)) = (map_of l p = Some (File c))"
proof -
  from assms have "mk_chain l (ancestors (abspath d name) @ [abspath d name]) = Inr l'"
    by (simp add: fs_makedirs_def Let_def split: if_splits)
  then show ?thesis by (rule mk_chain_files)
qed

lemma os_makedirs_run:
  assumes "os_makedirs e p w = (r, w')"
  shows "trace w' = trace w @ [MkDirs p]
         \<and> (\<forall>q c. (map_of (fs w') q = Some (File c)) = (map_of (fs w) q = Some (File c)))
         \<and> (\<forall>err. r = Inl err \<longrightarrow> fs_makedirs (cwd e) p (fs w) = Inl err)"
proof (cases "fs_makedirs (cwd e) p (fs w)")
  case (Inl err)
  with assms have "r = Inl err" and "w' = w\<lparr>trace := trace w @ [MkDirs p]\<rparr>"
    by (simp_all add: os_makedirs_def io_defs)
  with Inl show ?thesis by simp
next
  case (Inr l')
  with assms have "r = Inr ()" and "w' = w\<lparr>trace := trace w @ [MkDirs p], fs := l'\<rparr>"
    by (simp_all add: os_makedirs_def io_defs)
  with fs_makedirs_files [OF Inr] show ?thesis by simp
qed

lemma make_output_dir_run:
  assumes "make_output_dir e a w = (r, w')"
  defines "d \<equiv> dirname (abspath (cwd e) (filepath a))"
  shows "trace w' = trace w @ (if \<not> path_exists (cwd e) (fs w) d \<and> makedirs a then [MkDirs d] else [])
         \<and> (\<forall>p c. (map_of (fs w') p = Some (File c)) = (map_of (fs w) p = Some (File c)))
         \<and> (path_exists (cwd e) (fs w) d \<or> \<not> makedirs a \<longrightarrow> r = Inr () \<and> w' = w)
         \<and> (\<forall>err. r = Inl err \<longrightarrow> fs_makedirs (cwd e) d (fs w) = Inl err)"
proof -
  from assms(1)
  have eq: "(if \<not> path_exists (cwd e) (fs w) d \<and> makedirs a then os_makedirs e d
             else return_io ()) w = (r, w')"
    by (simp add: make_output_dir_def Let_def bind_exists d_def split del: if_split cong: if_cong)
  show ?thesis
  proof (cases "\<not> path_exists (cwd e) (fs w) d \<and> makedirs a")
    case True
    from eq have "os_makedirs e d w = (r, w')" unfolding if_P [OF True] .
    from os_makedirs_run [OF this] True show ?thesis by simp
  next
    case False
    from eq have "return_io () w = (r, w')" unfolding if_not_P [OF False] .
    from return_io_run [OF this] have "r = Inr ()" and "w' = w" by simp_all
    then show ?thesis unfolding if_not_P [OF False] using False by simp
  qed
qed

section \<open>A scripts path outside the output directory\<close>

lemma resolve_scripts_path_empty:
  assumes "resolve_scripts_path a = []"
  shows "resolve_scripts_path a = dirname (filepath a)"
proof -
  have "isabs (scripts_path a) \<Longrightarrow> scripts_path a \<noteq> []"
    by (auto simp: isabs_def startswith_def)
  with assms have j: "join2 (dirname (filepath a)) (scripts_path a) = []"
    by (auto simp: resolve_scripts_path_def split: if_splits)
  then have "dirname (filepath a) = []"
    by (auto simp: join2_def startswith_def split: if_splits)
  with assms show ?thesis by simp
qed

lemma offline_req_block_escape:
  assumes "\<not> prefix (path_list (abspath (cwd e) (dirname (filepath a))))
                    (path_list (abspath (cwd e) (resolve_scripts_path a)))"
  shows "offline_req_block e a d =
           raise_io (ValueError ''The scripts_path must have the same root directory as the filepath'')"
proof -
  from assms resolve_scripts_path_empty [of a] have "resolve_scripts_path a \<noteq> []" by auto
  from relpath_outside [OF this assms] obtain r where
    "relpath (cwd e) (resolve_scripts_path a) (dirname (filepath a)) = Inr r" "startswith r ''..''"
    by blast
  then show ?thesis by (simp add: offline_req_block_def Let_def)
qed

text \<open>
  Claim C1, as the code has it. With \<^verbatim>\<open>offline=True\<close> and \<^verbatim>\<open>offline_req=True\<close>, when the
  resolved \<^verbatim>\<open>scripts_path\<close> is not the output file's directory nor below it, the call
  never returns normally: after lines 131 to 133 it raises the \<^verbatim>\<open>ValueError\<close> of line 157
  (or, before that, the error of a failed \<^verbatim>\<open>os.makedirs\<close>). It makes no network request
  and writes, copies and extracts no file: no regular file appears, disappears or changes.
  The one thing it may have done is to create the output directory, when \<^verbatim>\<open>makedirs\<close>
  is true and the directory was missing; when the directory exists or \<^verbatim>\<open>makedirs\<close> is
  false, the world is left exactly as it was.
\<close>

theorem path_escape_raises:
  assumes "offline a" and "offline_req a"
    and "\<not> prefix (path_list (abspath (cwd e) (dirname (filepath a))))
                    (path_list (abspath (cwd e) (resolve_scripts_path a)))"
  shows "embed_html e a w =
           (case make_output_dir e a w of
              (Inl err, w1) \<Rightarrow> (Inl err, w1)
            | (Inr u, w1) \<Rightarrow>
                (Inl (ValueError ''The scripts_path must have the same root directory as the filepath''), w1))
         \<and> fst (embed_html e a w) \<noteq> Inr ()
         \<and> trace (snd (embed_html e a w)) =
             trace w @ (if \<not> path_exists (cwd e) (fs w) (dirname (abspath (cwd e) (filepath a)))
                            \<and> makedirs a
                        then [MkDirs (dirname (abspath (cwd e) (filepath a)))] else [])
         \<and> (\<forall>p c. (map_of (fs (snd (embed_html e a w))) p = Some (File c))
                    = (map_of (fs w) p = Some (File c)))
         \<and> (path_exists (cwd e) (fs w) (dirname (abspath (cwd e) (filepath a))) \<or> \<not> makedirs a \<longrightarrow>
              embed_html e a w =
                (Inl (ValueError ''The scripts_path must have the same root directory as the filepath''), w))"
proof -
  let ?err = "ValueError ''The scripts_path must have the same root directory as the filepath''"
  obtain r w1 where m: "make_output_dir e a w = (r, w1)" by (cases "make_output_dir e a w")
  have eq: "embed_html e a w = ((case r of Inl err \<Rightarrow> Inl err | Inr u \<Rightarrow> Inl ?err), w1)"
    using assms(1,2) m
    by (simp add: embed_html_def Let_def offline_req_block_escape [OF assms(3)])
       (simp add: bind_io_def raise_io_def split: sum.splits)
  from make_output_dir_run [OF m] eq m show ?thesis
    by (cases r) simp_all
qed

theorem path_escape_raises_witness:
  "offline (bundled_args ''../outside'') \<and> offline_req (bundled_args ''../outside'')
   \<and> \<not> prefix (path_list (abspath (cwd demo_env) (dirname (filepath (bundled_args ''../outside'')))))
               (path_list (abspath (cwd demo_env) (resolve_scripts_path (bundled_args ''../outside''))))
   \<and> fst (embed_html demo_env (bundled_args ''../outside'') demo_world) \<noteq> Inr ()
   \<and> (\<forall>p c. (map_of (fs (snd (embed_html demo_env (bundled_args ''../outside'') demo_world))) p
                = Some (File c))
              = (map_of (fs demo_world) p = Some (File c)))"
proof -
  have h1: "offline (bundled_args ''../outside'')" by (simp add: bundled_args_def)
  have h2: "offline_req (bundled_args ''../outside'')" by (simp add: bundled_args_def default_args_def)
  have h3: "\<not> prefix (path_list (abspath (cwd demo_env) (dirname (filepath (bundled_args ''../outside'')))))
               (path_list (abspath (cwd demo_env) (resolve_scripts_path (bundled_args ''../outside''))))"
    by code_simp
  note t = path_escape_raises [OF h1 h2 h3, of demo_world]
  from h1 h2 h3 t [THEN conjunct2, THEN conjunct1]
    t [THEN conjunct2, THEN conjunct2, THEN conjunct2, THEN conjunct1]
  show ?thesis by (intro conjI)
qed

theorem path_escape_counterexample:
  "offline (bundled_args ''../outside'') \<and> offline_req (bundled_args ''../outside'')
   \<and> \<not> prefix (path_list (abspath (cwd demo_env) (dirname (filepath (bundled_args ''../outside'')))))
               (path_list (abspath (cwd demo_env) (resolve_scripts_path (bundled_args ''../outside''))))
   \<and> fst (embed_html demo_env (bundled_args ''../outside'') demo_world)
       = Inl (ValueError ''The scripts_path must have the same root directory as the filepath'')
   \<and> map_of (fs demo_world) ''/home/u/out'' = None
   \<and> map_of (fs (snd (embed_html demo_env (bundled_args ''../outside'') demo_world))) ''/home/u/out''
       = Some Dir"
  by code_simp

section \<open>The developer build\<close>



section \<open>The bundled page\<close>

lemma offline_snippet_format:
  "py_format offline_snippet_template
     [''rel_script_path'' \<mapsto> rel, ''fname_fontawe'' \<mapsto> fa, ''fname_require'' \<mapsto> req,
      ''snippet'' \<mapsto> sn]
   = Some (Inr (''\<newline><link href=\"'' @ rel @ fa @
                ''/css/font-awesome.min.css\" rel=\"stylesheet\">    \<newline><script src=\"'' @
                rel @ req @ ''\" crossorigin=\"anonymous\"></script>\<newline>'' @ sn @
                ''\<newline>        ''))"
  by (simp add: py_format_def scan_def offline_snippet_template_def positional_def is_digit_def)

lemma save_requirejs_run:
  assumes "save_requirejs e f v w = (Inr x, w')"
  shows "x = ''require.min.v'' @ v @ ''.js''
         \<and> (\<exists>evs c. trace w' = trace w @ evs \<and> copies evs = [] \<and> writes evs = [(join2 f x, c)])"
proof -
  from assms
  have "bind_io (download_to_file e
                   (''https://cdnjs.cloudflare.com/ajax/libs/require.js/'' @ v @ ''/require.min.js'')
                   (join2 f (''require.min.v'' @ v @ ''.js'')))
          (\<lambda>_. return_io (''require.min.v'' @ v @ ''.js'')) w = (Inr x, w')"
    by (simp add: save_requirejs_def Let_def)
  then show ?thesis
  proof (cases rule: bind_io_Inr)
    case (1 u w1)
    from return_io_run [OF 1(2)] have "x = ''require.min.v'' @ v @ ''.js''" and "w' = w1" by simp_all
    with download_to_file_run [OF 1(1)] show ?thesis by auto
  qed
qed

lemma save_embed_js_run:
  assumes "save_embed_js e f v w = (Inr x, w')"
  shows "x = ''embed-amd_v'' @ drop 1 v @ ''.js''
         \<and> (\<exists>evs c. trace w' = trace w @ evs \<and> copies evs = [] \<and> writes evs = [(join2 f x, c)])"
proof -
  from assms
  have "bind_io (download_to_file e
                   (''https://unpkg.com/@jupyter-widgets/html-manager@'' @ v @ ''/dist/embed-amd.js'')
                   (join2 f (''embed-amd_v'' @ drop 1 v @ ''.js'')))
          (\<lambda>_. return_io (''embed-amd_v'' @ drop 1 v @ ''.js'')) w = (Inr x, w')"
    by (simp add: save_embed_js_def Let_def)
  then show ?thesis
  proof (cases rule: bind_io_Inr)
    case (1 u w1)
    from return_io_run [OF 1(2)] have "x = ''embed-amd_v'' @ drop 1 v @ ''.js''" and "w' = w1"
      by simp_all
    with download_to_file_run [OF 1(1)] show ?thesis by auto
  qed
qed

lemma fs_write_run:
  assumes "fs_write d p c l = Inr l'"
  shows "map_of l' (abspath d p) = Some (File c) \<and> (\<forall>q. map_of l q \<noteq> None \<longrightarrow> map_of l' q \<noteq> None)"
proof -
  from assms have "l' = fs_put (abspath d p) (File c) l"
    by (simp add: fs_write_def Let_def split: if_splits)
  then show ?thesis by (simp add: map_of_fs_put)
qed

lemma write_text_run:
  assumes "write_text e p c w = (Inr u, w')"
  shows "trace w' = trace w @ [WriteFile p c]
         \<and> map_of (fs w') (abspath (cwd e) p) = Some (File c)
         \<and> (\<forall>q. path_exists (cwd e) (fs w) q \<longrightarrow> path_exists (cwd e) (fs w') q)"
proof (cases "fs_write (cwd e) p c (fs w)")
  case (Inl err)
  with assms show ?thesis by (simp add: write_text_def io_defs)
next
  case (Inr l')
  with assms have "w' = w\<lparr>trace := trace w @ [WriteFile p c], fs := l'\<rparr>"
    by (simp add: write_text_def io_defs)
  with fs_write_run [OF Inr] show ?thesis by (simp add: path_exists_def)
qed

lemma format_io_run:
  "format_io t m w = (Inr out, w') \<Longrightarrow> py_format t m = Some (Inr out) \<and> w' = w"
  by (auto simp: format_io_def raise_io_def return_io_def split: option.splits sum.splits)

lemma offline_page_run:
  assumes "offline_page e a st (Some rel, Some req, Some emb, Some fa) w = (Inr u, w')"
  shows "\<exists>html.
           py_format (template a)
             ((template_opts_of a)(''snippet'' \<mapsto>
                ''\<newline><link href=\"'' @ rel @ fa @
                ''/css/font-awesome.min.css\" rel=\"stylesheet\">    \<newline><script src=\"'' @
                rel @ req @ ''\" crossorigin=\"anonymous\"></script>\<newline>'' @
                embed_snippet e (widgets a) (rel @ emb) (drop_defaults a) st @
                ''\<newline>        ''))
             = Some (Inr html)
           \<and> trace w' = trace w @ [WriteFile (filepath a) html]
           \<and> map_of (fs w') (abspath (cwd e) (filepath a)) = Some (File html)
           \<and> (\<forall>q. path_exists (cwd e) (fs w) q \<longrightarrow> path_exists (cwd e) (fs w') q)"
proof -
  let ?wrap = "''\<newline><link href=\"'' @ rel @ fa @
                ''/css/font-awesome.min.css\" rel=\"stylesheet\">    \<newline><script src=\"'' @
                rel @ req @ ''\" crossorigin=\"anonymous\"></script>\<newline>'' @
                embed_snippet e (widgets a) (rel @ emb) (drop_defaults a) st @
                ''\<newline>        ''"
  have f: "format_io offline_snippet_template
             [''rel_script_path'' \<mapsto> rel, ''fname_fontawe'' \<mapsto> fa, ''fname_require'' \<mapsto> req,
              ''snippet'' \<mapsto> embed_snippet e (widgets a) (rel @ emb) (drop_defaults a) st]
           = return_io ?wrap"
    unfolding format_io_def offline_snippet_format by simp
  from assms
  have "bind_io (format_io (template a) ((template_opts_of a)(''snippet'' \<mapsto> ?wrap)))
          (\<lambda>html_code. write_text e (filepath a) html_code) w = (Inr u, w')"
    unfolding offline_page_def by (simp add: read_local_def Let_def f)
  then show ?thesis
  proof (cases rule: bind_io_Inr)
    case (1 html w1)
    from format_io_run [OF 1(1)]
    have p: "py_format (template a) ((template_opts_of a)(''snippet'' \<mapsto> ?wrap)) = Some (Inr html)"
      and "w1 = w" by simp_all
    with write_text_run [of e "filepath a" html w u w'] 1(2) show ?thesis by blast
  qed
qed

lemma offline_req_block_run:
  assumes "offline_req_block e a d w = (Inr (rel, req, emb, fa), w')"
  defines "S \<equiv> resolve_scripts_path a"
    and "devfile \<equiv> path_join (abspath (cwd e) (pkg_path e)) [''..'', ''js'', ''dist'', ''index.js'']"
  shows "\<exists>r evs c1 c2.
           relpath (cwd e) S (dirname (filepath a)) = Inr r \<and> \<not> startswith r ''..''
           \<and> rel = (if r = ''.'' then [] else r @ ''/'')
           \<and> req = ''require.min.v2.3.4.js''
           \<and> emb = ''embed-amd_v'' @ drop 1 (html_manager_version e) @ ''.js''
           \<and> fa = ''font-awesome-4.7.0''
           \<and> trace w' = trace w @ evs
           \<and> (if devmode a \<and> path_exists (cwd e) (fs w) devfile
                then copies evs = [(devfile, join2 d ''ipyvolume.js''),
                                   (threejs_path e, dirname (join2 d ''ipyvolume.js''))]
                     \<and> writes evs = [(join2 S req, c1), (join2 S emb, c2)]
                else copies evs = [(threejs_path e, dirname (join2 d ''ipyvolume.js''))]
                     \<and> (\<exists>c0. writes evs = [(join2 d ''ipyvolume.js'', c0), (join2 S req, c1),
                                              (join2 S emb, c2)]))
           \<and> path_exists (cwd e) (fs w') (join2 S fa)"
proof -
  let ?msg = "ValueError ''The scripts_path must have the same root directory as the filepath''"
  obtain r where r: "relpath (cwd e) S (dirname (filepath a)) = Inr r" and ns: "\<not> startswith r ''..''"
  proof (cases "relpath (cwd e) S (dirname (filepath a))")
    case (Inl err)
    with assms(1) show ?thesis by (simp add: offline_req_block_def Let_def raise_io_def S_def)
  next
    case (Inr r)
    with assms(1) have "\<not> startswith r ''..''"
      by (auto simp add: offline_req_block_def Let_def raise_io_def S_def)
    with Inr that show ?thesis by blast
  qed
  let ?rel = "if r = ''.'' then [] else r @ ''/''"
  from assms(1) r ns
  have "bind_io (save_ipyvolumejs e d (version_js e) (devmode a)) (\<lambda>_.
          bind_io (save_requirejs e S ''2.3.4'') (\<lambda>fname_require.
          bind_io (save_embed_js e S (html_manager_version e)) (\<lambda>fname_embed.
          bind_io (save_font_awesome e S ''4.7.0'') (\<lambda>fname_fontawe.
            return_io (?rel, fname_require, fname_embed, fname_fontawe))))) w
        = (Inr (rel, req, emb, fa), w')"
    by (simp add: offline_req_block_def Let_def S_def split del: if_split)
  then obtain x1 w1 where s1: "save_ipyvolumejs e d (version_js e) (devmode a) w = (Inr x1, w1)"
    and k1: "bind_io (save_requirejs e S ''2.3.4'') (\<lambda>fname_require.
          bind_io (save_embed_js e S (html_manager_version e)) (\<lambda>fname_embed.
          bind_io (save_font_awesome e S ''4.7.0'') (\<lambda>fname_fontawe.
            return_io (?rel, fname_require, fname_embed, fname_fontawe)))) w1
        = (Inr (rel, req, emb, fa), w')"
    by (rule bind_io_Inr)
  from k1 obtain x2 w2 where s2: "save_requirejs e S ''2.3.4'' w1 = (Inr x2, w2)"
    and k2: "bind_io (save_embed_js e S (html_manager_version e)) (\<lambda>fname_embed.
          bind_io (save_font_awesome e S ''4.7.0'') (\<lambda>fname_fontawe.
            return_io (?rel, x2, fname_embed, fname_fontawe))) w2
        = (Inr (rel, req, emb, fa), w')"
    by (rule bind_io_Inr)
  from k2 obtain x3 w3 where s3: "save_embed_js e S (html_manager_version e) w2 = (Inr x3, w3)"
    and k3: "bind_io (save_font_awesome e S ''4.7.0'') (\<lambda>fname_fontawe.
            return_io (?rel, x2, x3, fname_fontawe)) w3
        = (Inr (rel, req, emb, fa), w')"
    by (rule bind_io_Inr)
  from k3 obtain x4 w4 where s4: "save_font_awesome e S ''4.7.0'' w3 = (Inr x4, w4)"
    and k4: "return_io (?rel, x2, x3, x4) w4 = (Inr (rel, req, emb, fa), w')"
    by (rule bind_io_Inr)
  from return_io_run [OF k4] have vals: "rel = ?rel" "req = x2" "emb = x3" "fa = x4" and w4: "w' = w4"
    by simp_all
  from save_ipyvolumejs_run [OF s1] obtain evs1 where
    e1: "trace w1 = trace w @ evs1"
        "if devmode a \<and> path_exists (cwd e) (fs w) devfile
         then writes evs1 = []
              \<and> copies evs1 = [(devfile, join2 d ''ipyvolume.js''),
                                (threejs_path e, dirname (join2 d ''ipyvolume.js''))]
         else (\<exists>c. writes evs1 = [(join2 d ''ipyvolume.js'', c)])
              \<and> copies evs1 = [(threejs_path e, dirname (join2 d ''ipyvolume.js''))]"
    unfolding devfile_def by (auto split: if_splits)
  from save_requirejs_run [OF s2] obtain evs2 c1 where
    e2: "x2 = ''require.min.v2.3.4.js''" "trace w2 = trace w1 @ evs2" "copies evs2 = []"
        "writes evs2 = [(join2 S x2, c1)]"
    by auto
  from save_embed_js_run [OF s3] obtain evs3 c2 where
    e3: "x3 = ''embed-amd_v'' @ drop 1 (html_manager_version e) @ ''.js''"
        "trace w3 = trace w2 @ evs3" "copies evs3 = []" "writes evs3 = [(join2 S x3, c2)]"
    by auto
  from save_font_awesome_run [OF s4] obtain evs4 where
    e4: "x4 = ''font-awesome-4.7.0''" "trace w4 = trace w3 @ evs4" "copies evs4 = []"
        "writes evs4 = []" "path_exists (cwd e) (fs w4) (join2 S ''font-awesome-4.7.0'')"
    by auto
  let ?evs = "evs1 @ evs2 @ evs3 @ evs4"
  have t: "trace w' = trace w @ ?evs" using e1(1) e2(2) e3(2) e4(2) w4 by simp
  have cw: "if devmode a \<and> path_exists (cwd e) (fs w) devfile
            then copies ?evs = [(devfile, join2 d ''ipyvolume.js''),
                               (threejs_path e, dirname (join2 d ''ipyvolume.js''))]
                 \<and> writes ?evs = [(join2 S req, c1), (join2 S emb, c2)]
            else copies ?evs = [(threejs_path e, dirname (join2 d ''ipyvolume.js''))]
                 \<and> (\<exists>c0. writes ?evs = [(join2 d ''ipyvolume.js'', c0), (join2 S req, c1),
                                          (join2 S emb, c2)])"
  proof (cases "devmode a \<and> path_exists (cwd e) (fs w) devfile")
    case True
    with e1(2) have "writes evs1 = []" 
      "copies evs1 = [(devfile, join2 d ''ipyvolume.js''),
                      (threejs_path e, dirname (join2 d ''ipyvolume.js''))]"
      by simp_all
    with True e2 e3 e4 vals show ?thesis by simp
  next
    case False
    with e1(2) obtain c0 where "writes evs1 = [(join2 d ''ipyvolume.js'', c0)]"
      "copies evs1 = [(threejs_path e, dirname (join2 d ''ipyvolume.js''))]"
      by auto
    with False e2 e3 e4 vals show ?thesis by simp
  qed
  from r ns vals e2(1) e3(1) e4(1) e4(5) w4 t cw show ?thesis
    by (intro exI [of _ r] exI [of _ ?evs] exI [of _ c1] exI [of _ c2] conjI) simp_all
qed

lemma basename_join2:
  assumes "CHR ''/'' \<notin> set n"
  shows "basename (join2 p n) = n"
proof -
  from assms have ns: "\<not> startswith n ''/''" by (auto simp: startswith_slash_iff)
  have tw: "takeWhile (\<lambda>c. c \<noteq> CHR ''/'') (rev n @ CHR ''/'' # xs) = rev n" for xs
  proof -
    from assms have "\<And>x. x \<in> set (rev n) \<Longrightarrow> x \<noteq> CHR ''/''" by auto
    then have "takeWhile (\<lambda>c. c \<noteq> CHR ''/'') (rev n @ CHR ''/'' # xs)
                 = rev n @ takeWhile (\<lambda>c. c \<noteq> CHR ''/'') (CHR ''/'' # xs)"
      by (rule takeWhile_append2)
    then show ?thesis by simp
  qed
  have tw0: "takeWhile (\<lambda>c. c \<noteq> CHR ''/'') (rev n) = rev n"
    using assms by auto
  show ?thesis
  proof (cases "p = []")
    case True
    have "basename n = rev (rev n)" unfolding basename_def tw0 ..
    with True ns show ?thesis by (simp add: join2_def)
  next
    case False
    show ?thesis
    proof (cases "endswith p ''/''")
      case True
      with False obtain q where q: "p = q @ ''/''"
        by (cases p rule: rev_cases) (auto simp: endswith_slash_iff)
      with ns True have "join2 p n = q @ ''/'' @ n" by (simp add: join2_def)
      then show ?thesis using tw [of "rev q"] by (simp add: basename_def)
    next
      case e: False
      with False ns have "join2 p n = p @ ''/'' @ n" by (simp add: join2_def)
      then show ?thesis using tw [of "rev p"] by (simp add: basename_def)
    qed
  qed
qed

lemma basename_threejs: "basename (threejs_path e) = ''three.js''"
  by (simp add: threejs_path_def path_join_def basename_join2)

lemma embed_html_offline_run:
  assumes "offline a" and "embed_html e a w = (Inr u, w')"
  shows "offline_req a \<and>
         (\<exists>w1 w2 rel req emb fa.
            make_output_dir e a w = (Inr (), w1)
            \<and> offline_req_block e a (dirname (abspath (cwd e) (filepath a))) w1
                = (Inr (rel, req, emb, fa), w2)
            \<and> offline_page e a
                 (if all_states a then None
                  else Some (dependency_state e (widgets a) (drop_defaults a)))
                 (Some rel, Some req, Some emb, Some fa) w2 = (Inr u, w'))"
proof -
  let ?st = "if all_states a then None
             else Some (dependency_state e (widgets a) (drop_defaults a))"
  let ?d = "dirname (abspath (cwd e) (filepath a))"
  let ?locals = "if offline_req a then
                   bind_io (offline_req_block e a ?d) (\<lambda>(r, q, m, f).
                     return_io (Some r, Some q, Some m, Some f))
                 else return_io (None, None, None, None)"
  from assms have "bind_io (make_output_dir e a) (\<lambda>_. bind_io ?locals (offline_page e a ?st)) w
                     = (Inr u, w')"
    by (simp add: embed_html_def Let_def split del: if_split cong: if_cong)
  then obtain x w1 where m: "make_output_dir e a w = (Inr x, w1)"
    and k: "bind_io ?locals (offline_page e a ?st) w1 = (Inr u, w')"
    by (rule bind_io_Inr)
  have req: "offline_req a"
  proof (rule ccontr)
    assume "\<not> offline_req a"
    with k have "raise_io (UnboundLocalError ''rel_script_path'') w1 = (Inr u, w')"
      by (simp add: offline_page_unassigned)
    then show False by (simp add: raise_io_def)
  qed
  with k have "bind_io (bind_io (offline_req_block e a ?d) (\<lambda>(r, q, m, f).
                     return_io (Some r, Some q, Some m, Some f))) (offline_page e a ?st) w1
                 = (Inr u, w')"
    by simp
  then obtain l w2 where b: "bind_io (offline_req_block e a ?d) (\<lambda>(r, q, m, f).
                     return_io (Some r, Some q, Some m, Some f)) w1 = (Inr l, w2)"
    and p: "offline_page e a ?st l w2 = (Inr u, w')"
    by (rule bind_io_Inr)
  from b obtain t w3 where b1: "offline_req_block e a ?d w1 = (Inr t, w3)"
    and b2: "(case t of (r, q, m, f) \<Rightarrow> return_io (Some r, Some q, Some m, Some f)) w3 = (Inr l, w2)"
    by (rule bind_io_Inr)
  obtain rel rq emb fa where t: "t = (rel, rq, emb, fa)" by (cases t)
  with b2 have "return_io (Some rel, Some rq, Some emb, Some fa) w3 = (Inr l, w2)" by simp
  from return_io_run [OF this] have l: "l = (Some rel, Some rq, Some emb, Some fa)" and w3: "w2 = w3"
    by simp_all
  from m b1 p t l w3 req show ?thesis by auto
qed

lemma make_output_dir_trace:
  assumes "make_output_dir e a w = (r, w1)"
  shows "\<exists>evs. trace w1 = trace w @ evs \<and> net_requests evs = [] \<and> copies evs = []
           \<and> writes evs = []"
proof -
  let ?evs = "if \<not> path_exists (cwd e) (fs w) (dirname (abspath (cwd e) (filepath a))) \<and> makedirs a
              then [MkDirs (dirname (abspath (cwd e) (filepath a)))] else []"
  from make_output_dir_run [OF assms] have "trace w1 = trace w @ ?evs" by (rule conjunct1)
  moreover have "net_requests ?evs = []" "copies ?evs = []" "writes ?evs = []" by simp_all
  ultimately show ?thesis by blast
qed

lemma embed_html_online_run:
  assumes "\<not> offline a" and "embed_html e a w = (Inr u, w')"
  shows "\<exists>evs. trace w' = trace w @ evs
           \<and> copies evs = [(threejs_path e, dirname (filepath a))]
           \<and> writes evs = [(filepath a,
                 minimal_html e (widgets a)
                   (if all_states a then None
                    else Some (dependency_state e (widgets a) (drop_defaults a)))
                   (drop_defaults a))]"
proof -
  let ?st = "if all_states a then None
             else Some (dependency_state e (widgets a) (drop_defaults a))"
  let ?html = "minimal_html e (widgets a) ?st (drop_defaults a)"
  from assms
  have "bind_io (make_output_dir e a) (\<lambda>_.
          bind_io (write_text e (filepath a) ?html) (\<lambda>_.
            shutil_copy e (threejs_path e) (dirname (filepath a)))) w = (Inr u, w')"
    by (simp add: embed_html_def Let_def embed_minimal_html_def split del: if_split cong: if_cong)
  then obtain x w1 where m: "make_output_dir e a w = (Inr x, w1)"
    and k: "bind_io (write_text e (filepath a) ?html) (\<lambda>_.
            shutil_copy e (threejs_path e) (dirname (filepath a))) w1 = (Inr u, w')"
    by (rule bind_io_Inr)
  from k obtain y w2 where wr: "write_text e (filepath a) ?html w1 = (Inr y, w2)"
    and cp: "shutil_copy e (threejs_path e) (dirname (filepath a)) w2 = (Inr u, w')"
    by (rule bind_io_Inr)
  from make_output_dir_trace [OF m] obtain evs where
    evs: "trace w1 = trace w @ evs" "copies evs = []" "writes evs = []"
    by blast
  let ?all = "evs @ [WriteFile (filepath a) ?html,
                     CopyFile (threejs_path e) (dirname (filepath a))]"
  from evs write_text_trace [OF wr] shutil_copy_trace [OF cp]
  have "trace w' = trace w @ ?all
        \<and> copies ?all = [(threejs_path e, dirname (filepath a))]
        \<and> writes ?all = [(filepath a, ?html)]"
    by simp
  then show ?thesis by blast
qed

text \<open>
  Claim C9. In a call with \<^verbatim>\<open>offline=True\<close> and \<^verbatim>\<open>offline_req=True\<close> that returns, the
  relative path \<open>r\<close> of the resolved \<^verbatim>\<open>scripts_path\<close> from the output file's directory
  does not start with \<^verbatim>\<open>..\<close>; it is \<^verbatim>\<open>.\<close> when the two are the same directory, and
  then the prefix is empty; otherwise the prefix is \<open>r\<close> followed by a slash. The page
  written to the output file is the template formatted with the snippet wrapper, in which
  the stylesheet, the module loader and the embedding script are each addressed by the
  prefix followed by the file or folder name.
\<close>

theorem bundled_script_prefix:
  assumes "offline a" and "offline_req a" and "embed_html e a w = (Inr u, w')"
  shows "\<exists>r pre html.
           relpath (cwd e) (resolve_scripts_path a) (dirname (filepath a)) = Inr r
           \<and> \<not> startswith r ''..''
           \<and> (abspath (cwd e) (resolve_scripts_path a) = abspath (cwd e) (dirname (filepath a))
                \<longrightarrow> r = ''.'')
           \<and> pre = (if r = ''.'' then [] else r @ ''/'')
           \<and> py_format (template a)
                ((template_opts_of a)(''snippet'' \<mapsto>
                   ''\<newline><link href=\"'' @ pre @ ''font-awesome-4.7.0'' @
                   ''/css/font-awesome.min.css\" rel=\"stylesheet\">    \<newline><script src=\"'' @
                   pre @ ''require.min.v2.3.4.js'' @
                   ''\" crossorigin=\"anonymous\"></script>\<newline>'' @
                   embed_snippet e (widgets a)
                     (pre @ ''embed-amd_v'' @ drop 1 (html_manager_version e) @ ''.js'')
                     (drop_defaults a)
                     (if all_states a then None
                      else Some (dependency_state e (widgets a) (drop_defaults a))) @
                   ''\<newline>        ''))
               = Some (Inr html)
           \<and> map_of (fs w') (abspath (cwd e) (filepath a)) = Some (File html)"
proof -
  from embed_html_offline_run [OF assms(1,3)] obtain w1 w2 rel req emb fa where
    b: "offline_req_block e a (dirname (abspath (cwd e) (filepath a))) w1
          = (Inr (rel, req, emb, fa), w2)"
    and p: "offline_page e a
              (if all_states a then None
               else Some (dependency_state e (widgets a) (drop_defaults a)))
              (Some rel, Some req, Some emb, Some fa) w2 = (Inr u, w')"
    by blast
  from offline_req_block_run [OF b] obtain r where
    r: "relpath (cwd e) (resolve_scripts_path a) (dirname (filepath a)) = Inr r"
       "\<not> startswith r ''..''"
    and vals: "rel = (if r = ''.'' then [] else r @ ''/'')" "req = ''require.min.v2.3.4.js''"
       "emb = ''embed-amd_v'' @ drop 1 (html_manager_version e) @ ''.js''"
       "fa = ''font-awesome-4.7.0''"
    by blast
  from r(1) have ne: "resolve_scripts_path a \<noteq> []"
    by (auto simp: relpath_def)
  have same: "abspath (cwd e) (resolve_scripts_path a) = abspath (cwd e) (dirname (filepath a))
                \<longrightarrow> r = ''.''"
    using relpath_same [OF ne] r(1) by auto
  from offline_page_run [OF p] obtain html where
    h: "py_format (template a)
             ((template_opts_of a)(''snippet'' \<mapsto>
                ''\<newline><link href=\"'' @ rel @ fa @
                ''/css/font-awesome.min.css\" rel=\"stylesheet\">    \<newline><script src=\"'' @
                rel @ req @ ''\" crossorigin=\"anonymous\"></script>\<newline>'' @
                embed_snippet e (widgets a) (rel @ emb) (drop_defaults a)
                  (if all_states a then None
                   else Some (dependency_state e (widgets a) (drop_defaults a))) @
                ''\<newline>        ''))
             = Some (Inr html)"
       "map_of (fs w') (abspath (cwd e) (filepath a)) = Some (File html)"
    by blast
  from r same h show ?thesis
    unfolding vals(2,3,4) vals(1) [symmetric]
    by (intro exI [of _ r] exI [of _ rel] exI [of _ html] conjI vals(1)) simp_all
qed

theorem bundled_script_prefix_witness:
  "offline (bundled_args ''scripts'') \<and> offline_req (bundled_args ''scripts'')
   \<and> embed_html demo_env (bundled_args ''scripts'') demo_world
       = (Inr (), snd (embed_html demo_env (bundled_args ''scripts'') demo_world))
   \<and> (\<exists>r pre html.
         relpath (cwd demo_env) (resolve_scripts_path (bundled_args ''scripts''))
           (dirname (filepath (bundled_args ''scripts''))) = Inr r
         \<and> \<not> startswith r ''..''
         \<and> pre = (if r = ''.'' then [] else r @ ''/'')
         \<and> map_of (fs (snd (embed_html demo_env (bundled_args ''scripts'') demo_world)))
             (abspath (cwd demo_env) (filepath (bundled_args ''scripts''))) = Some (File html))"
proof -
  define R where "R = embed_html demo_env (bundled_args ''scripts'') demo_world"
  have h1: "offline (bundled_args ''scripts'')" by (simp add: bundled_args_def)
  have h2: "offline_req (bundled_args ''scripts'')"
    by (simp add: bundled_args_def default_args_def)
  have "fst R = Inr ()" unfolding R_def by code_simp
  then have run: "embed_html demo_env (bundled_args ''scripts'') demo_world = (Inr (), snd R)"
    unfolding R_def by (metis prod.collapse)
  from bundled_script_prefix [OF h1 h2 run] obtain r pre html where
    "relpath (cwd demo_env) (resolve_scripts_path (bundled_args ''scripts''))
           (dirname (filepath (bundled_args ''scripts''))) = Inr r"
    "\<not> startswith r ''..''" "pre = (if r = ''.'' then [] else r @ ''/'')"
    "map_of (fs (snd R)) (abspath (cwd demo_env) (filepath (bundled_args ''scripts'')))
       = Some (File html)"
    by (elim exE conjE)
  with h1 h2 run show ?thesis unfolding R_def by (intro conjI exI)
qed



text \<open>
  The theorem speaks of calls that return. An online call whose \<^verbatim>\<open>filepath\<close> has no
  directory part does not: line 147 takes \<^verbatim>\<open>os.path.dirname(filepath)\<close>, which is empty,
  and the copy of \<^verbatim>\<open>three.js\<close> to the empty path fails after the page was written. The
  offline branch passes the absolute \<^verbatim>\<open>dir_name_dst\<close> instead.
\<close>

lemma online_bare_filename:
  "fst (embed_html demo_env (default_args ''page.html'' ()) demo_world)
     = Inl (OSError ''No such file or directory: '')
   \<and> trace (snd (embed_html demo_env (default_args ''page.html'' ()) demo_world))
     = [WriteFile ''page.html'' ''<html>minimal</html>'',
        CopyFile ''/lib/ipyvolume/static/three.js'' []]"
  by code_simp

end
